theory Spec2Isabelle
  imports Complex_Main "HOL-Library.AList"
begin

section \<open>Syntax trees checked by LinearParsedExpressionValidator\<close>

text \<open>
  \<^verbatim>\<open>LinearParsedExpressionValidator\<close> (obj_tables/math/expression.py) works on the tree that
  Python's \<^verbatim>\<open>ast.parse(expression, mode='eval')\<close> returns for the text joined from the
  finalized tokens. That text holds only tokens \<^verbatim>\<open>ParsedExpression.tokenize\<close> admits
  (\<^verbatim>\<open>LEGAL_TOKENS_NAMES\<close>): numbers, names, \<^verbatim>\<open>[ ] . , ( )\<close>, the operators
  \<^verbatim>\<open>+ - * / **\<close> and the six comparisons. So the only unary operators are \<^verbatim>\<open>+\<close> and
  \<^verbatim>\<open>-\<close>, the only binary operators are the five below, and every other node is a
  comparison, call, subscript, attribute, tuple, list or starred argument, kept here as
  a node kind with its child expressions.

  A numeric literal is a Python int, float or complex (\<^verbatim>\<open>3j\<close>). Ints and floats are
  idealised as reals (exact arithmetic, no rounding); a complex literal is kept apart
  because \<^verbatim>\<open>float()\<close> refuses it.
\<close>

datatype pynum = PyReal real | PyComplex

datatype unaryop = UAdd | USub

datatype operator = Add | Sub | Mult | Div | Pow_op

datatype node_kind = Compare | Call | Subscript | Attribute | Tuple | List_node | Starred

datatype expr =
    is_Num: Num (num_val: pynum)
  | is_Name: Name (name_id: string)
  | is_UnaryOp: UnaryOp (un_op: unaryop) (operand: expr)
  | is_BinOp: BinOp (left: expr) (bin_op: operator) (right: expr)
  | is_Other: Other (kind: node_kind) (children: "expr list")

text \<open>\<^verbatim>\<open>node.left.n * node.right.n\<close> in \<^verbatim>\<open>MultiplyNums\<close>.\<close>

fun pynum_mult :: "pynum \<Rightarrow> pynum \<Rightarrow> pynum" where
  "pynum_mult (PyReal a) (PyReal b) = PyReal (a * b)"
| "pynum_mult _ _ = PyComplex"

text \<open>\<^verbatim>\<open>float(x)\<close>: a \<^verbatim>\<open>TypeError\<close> (here \<open>None\<close>) on a complex number.\<close>

fun py_float :: "pynum \<Rightarrow> real option" where
  "py_float (PyReal a) = Some a"
| "py_float PyComplex = None"

subsection \<open>ast.walk\<close>

text \<open>
  \<^verbatim>\<open>ast.iter_child_nodes\<close> yields the fields of a node in order. The operator and context
  nodes it also yields (\<^verbatim>\<open>Add()\<close>, \<^verbatim>\<open>Load()\<close>) have no children and are neither
  \<^verbatim>\<open>Num\<close>, \<^verbatim>\<open>Name\<close> nor \<^verbatim>\<open>BinOp\<close>; they matter only to \<^verbatim>\<open>_validate_node_types\<close>,
  where \<open>node_classes\<close> accounts for them.
\<close>

fun iter_child_nodes :: "expr \<Rightarrow> expr list" where
  "iter_child_nodes (Num c) = []"
| "iter_child_nodes (Name x) = []"
| "iter_child_nodes (UnaryOp u e) = [e]"
| "iter_child_nodes (BinOp l b r) = [l, r]"
| "iter_child_nodes (Other k es) = es"

lemma size_iter_child_nodes:
  "sum_list (map (\<lambda>e. 2 * size e + 1) (iter_child_nodes t)) < 2 * size t + 1"
proof (cases t)
  case (Other k es)
  have "sum_list (map (\<lambda>e. 2 * size e + 1) es) \<le> 2 * size_list size es"
    by (induction es) auto
  with Other show ?thesis by simp
qed auto

text \<open>
  \<^verbatim>\<open>ast.walk\<close>: breadth first, a queue (\<^verbatim>\<open>deque\<close>) that starts with the root; each node
  popped from the left has its children appended on the right.
\<close>

function walk_queue :: "expr list \<Rightarrow> expr list" where
  "walk_queue [] = []"
| "walk_queue (node # todo) = node # walk_queue (todo @ iter_child_nodes node)"
  by pat_completeness auto
termination
proof (relation "measure (\<lambda>todo. sum_list (map (\<lambda>e. 2 * size e + 1) todo))")
  show "wf (measure (\<lambda>todo. sum_list (map (\<lambda>e. 2 * size e + 1) todo)))" by simp
next
  fix node :: expr and todo :: "expr list"
  show "(todo @ iter_child_nodes node, node # todo)
          \<in> measure (\<lambda>todo. sum_list (map (\<lambda>e. 2 * size e + 1) todo))"
    using size_iter_child_nodes [of node] by simp
qed

definition walk :: "expr \<Rightarrow> expr list" where
  "walk tree = walk_queue [tree]"

subsection \<open>The checks before normalisation\<close>

datatype ast_class =
    Constant_cls | Num_cls | Name_cls | Load_cls
  | UnaryOp_cls | UAdd_cls | USub_cls
  | BinOp_cls | Add_cls | Sub_cls | Mult_cls | Div_cls | Pow_cls
  | Other_cls node_kind

fun unaryop_cls :: "unaryop \<Rightarrow> ast_class" where
  "unaryop_cls UAdd = UAdd_cls"
| "unaryop_cls USub = USub_cls"

fun operator_cls :: "operator \<Rightarrow> ast_class" where
  "operator_cls Add = Add_cls"
| "operator_cls Sub = Sub_cls"
| "operator_cls Mult = Mult_cls"
| "operator_cls Div = Div_cls"
| "operator_cls Pow_op = Pow_cls"

text \<open>
  The classes of the nodes \<^verbatim>\<open>ast.walk\<close> yields at an expression node: the node's own
  class, and the class of its operator or context node.
\<close>

fun node_classes :: "expr \<Rightarrow> ast_class list" where
  "node_classes (Num c) = [Constant_cls]"
| "node_classes (Name x) = [Name_cls, Load_cls]"
| "node_classes (UnaryOp u e) = [UnaryOp_cls, unaryop_cls u]"
| "node_classes (BinOp l b r) = [BinOp_cls, operator_cls b]"
| "node_classes (Other k es) = [Other_cls k]"

definition VALID_NOTE_TYPES :: "ast_class list" where
  "VALID_NOTE_TYPES =
     [Constant_cls, Num_cls, UnaryOp_cls, UAdd_cls, USub_cls, BinOp_cls,
      Add_cls, Sub_cls, Mult_cls, Load_cls, Name_cls]"

text \<open>Why an expression is not linear: one constructor for each message of \<^verbatim>\<open>_validate\<close>.\<close>

datatype reason =
    Python_syntax_error
  | Invalid_terms "ast_class set"
  | Bad_numbers
  | Constant_terms
  | Products_of_variables
  | Constant_right_of_var

definition validate_node_types :: "expr \<Rightarrow> bool \<times> reason option" where
  "validate_node_types tree =
     (let errors = filter (\<lambda>c. c \<notin> set VALID_NOTE_TYPES) (concat (map node_classes (walk tree)))
      in if errors \<noteq> [] then (False, Some (Invalid_terms (set errors))) else (True, None))"

definition validate_nums :: "expr \<Rightarrow> bool \<times> reason option" where
  "validate_nums tree =
     (let errors = filter (\<lambda>node. is_Num node \<and> py_float (num_val node) = None) (walk tree)
      in if errors \<noteq> [] then (False, Some Bad_numbers) else (True, None))"

subsection \<open>The node transformers\<close>

text \<open>
  Each \<^verbatim>\<open>ast.NodeTransformer\<close> below visits the children of a node first
  (\<^verbatim>\<open>self.generic_visit(node)\<close>) and then rewrites the node itself; a node class without a
  \<^verbatim>\<open>visit_\<close> method only has its children visited. The Python mutates the tree in place
  and \<^verbatim>\<open>DistributeMult\<close> puts one operand object under both new products; the functions
  here return new trees, so a duplicated operand is a copy.
\<close>

fun RemoveUnaryOps :: "expr \<Rightarrow> expr" where
  "RemoveUnaryOps (Num c) = Num c"
| "RemoveUnaryOps (Name x) = Name x"
| "RemoveUnaryOps (UnaryOp u e) =
     (let e' = RemoveUnaryOps e
      in case u of UAdd \<Rightarrow> e' | USub \<Rightarrow> BinOp (Num (PyReal (- 1))) Mult e')"
| "RemoveUnaryOps (BinOp l b r) = BinOp (RemoveUnaryOps l) b (RemoveUnaryOps r)"
| "RemoveUnaryOps (Other k es) = Other k (map RemoveUnaryOps es)"

fun MultiplyNums :: "expr \<Rightarrow> expr" where
  "MultiplyNums (Num c) = Num c"
| "MultiplyNums (Name x) = Name x"
| "MultiplyNums (UnaryOp u e) = UnaryOp u (MultiplyNums e)"
| "MultiplyNums (BinOp l b r) =
     (let l' = MultiplyNums l; r' = MultiplyNums r
      in if b = Mult \<and> is_Num l' \<and> is_Num r'
         then Num (pynum_mult (num_val l') (num_val r'))
         else if b = Mult \<and> is_Num l' \<and> is_BinOp r' \<and> bin_op r' = Mult \<and> is_Num (left r')
         then BinOp (Num (pynum_mult (num_val l') (num_val (left r')))) Mult (right r')
         else BinOp l' b r')"
| "MultiplyNums (Other k es) = Other k (map MultiplyNums es)"

fun DistributeMult :: "expr \<Rightarrow> expr" where
  "DistributeMult (Num c) = Num c"
| "DistributeMult (Name x) = Name x"
| "DistributeMult (UnaryOp u e) = UnaryOp u (DistributeMult e)"
| "DistributeMult (BinOp l b r) =
     (let l' = DistributeMult l; r' = DistributeMult r
      in if b = Mult \<and> (is_Num r' \<or> is_Name r' \<or> is_UnaryOp r' \<or> is_BinOp r')
            \<and> is_BinOp l' \<and> (bin_op l' = Add \<or> bin_op l' = Sub)
         then BinOp (BinOp (left l') Mult r') (bin_op l') (BinOp (right l') Mult r')
         else if b = Mult \<and> (is_Num l' \<or> is_Name l' \<or> is_UnaryOp l' \<or> is_BinOp l')
            \<and> is_BinOp r' \<and> (bin_op r' = Add \<or> bin_op r' = Sub)
         then BinOp (BinOp l' Mult (left r')) (bin_op r') (BinOp l' Mult (right r'))
         else BinOp l' b r')"
| "DistributeMult (Other k es) = Other k (map DistributeMult es)"

fun DistributeSub :: "expr \<Rightarrow> expr" where
  "DistributeSub (Num c) = Num c"
| "DistributeSub (Name x) = Name x"
| "DistributeSub (UnaryOp u e) = UnaryOp u (DistributeSub e)"
| "DistributeSub (BinOp l b r) =
     (let l' = DistributeSub l; r' = DistributeSub r
      in if b = Sub \<and> (is_Name r' \<or> is_Num r')
         then BinOp l' Add (BinOp (Num (PyReal (- 1))) Mult r')
         else if b = Sub \<and> is_BinOp r' \<and> (bin_op r' = Add \<or> bin_op r' = Sub)
         then BinOp l' Add
                (BinOp (BinOp (Num (PyReal (- 1))) Mult (left r')) (bin_op r')
                       (BinOp (Num (PyReal (- 1))) Mult (right r')))
         else if b = Sub \<and> is_BinOp r' \<and> bin_op r' = Mult
         then BinOp l' Add (BinOp (BinOp (Num (PyReal (- 1))) Mult (left r')) (bin_op r') (right r'))
         else BinOp l' b r')"
| "DistributeSub (Other k es) = Other k (map DistributeSub es)"

subsection \<open>The passes\<close>

definition remove_unary_operators :: "expr \<Rightarrow> expr" where
  "remove_unary_operators tree = RemoveUnaryOps tree"

definition multiply_numbers :: "expr \<Rightarrow> expr" where
  "multiply_numbers tree = MultiplyNums tree"

definition remove_subtraction :: "expr \<Rightarrow> expr" where
  "remove_subtraction tree = DistributeSub tree"

text \<open>
  \<^verbatim>\<open>_dist_mult\<close> is the one pass with a loop: \<^verbatim>\<open>while True\<close>, a deep copy of the tree, one
  visit of \<^verbatim>\<open>DistributeMult\<close>, and a \<^verbatim>\<open>break\<close> when \<^verbatim>\<open>ast_eq\<close> finds the copy and the tree
  equal (\<^verbatim>\<open>astor.dump_tree\<close> of both: structural equality). The loop ends because every
  visit that changes the tree lowers \<open>dm_weight\<close>.
\<close>

fun dm_weight :: "expr \<Rightarrow> nat" where
  "dm_weight (Num c) = 2"
| "dm_weight (Name x) = 2"
| "dm_weight (UnaryOp u e) = dm_weight e + 1"
| "dm_weight (BinOp l b r) =
     (if b = Mult then dm_weight l * dm_weight r else dm_weight l + dm_weight r + 1)"
| "dm_weight (Other k es) = sum_list (map dm_weight es) + 2"

lemma dm_weight_ge2: "2 \<le> dm_weight t"
proof (induction t)
  case (BinOp l b r)
  have "2 * 2 \<le> dm_weight l * dm_weight r"
    using BinOp.IH by (intro mult_le_mono)
  with BinOp.IH show ?case by simp
qed auto

lemma sum_list_map_le:
  "(\<And>e. e \<in> set es \<Longrightarrow> w (f e) \<le> (w e :: nat)) \<Longrightarrow>
   sum_list (map w (map f es)) \<le> sum_list (map w es)"
  by (induction es) (auto intro: add_mono)

lemma sum_list_map_less:
  "(\<And>e. e \<in> set es \<Longrightarrow> w (f e) \<le> (w e :: nat)) \<Longrightarrow>
   (\<And>e. e \<in> set es \<Longrightarrow> f e \<noteq> e \<Longrightarrow> w (f e) < w e) \<Longrightarrow>
   map f es \<noteq> es \<Longrightarrow> sum_list (map w (map f es)) < sum_list (map w es)"
proof (induction es)
  case Nil
  then show ?case by simp
next
  case (Cons a es)
  have le: "sum_list (map w (map f es)) \<le> sum_list (map w es)"
    using Cons.prems(1) by (intro sum_list_map_le) simp
  show ?case
  proof (cases "f a = a")
    case True
    with Cons.prems(3) have "map f es \<noteq> es" by simp
    then have "sum_list (map w (map f es)) < sum_list (map w es)"
      using Cons.prems(1,2) by (intro Cons.IH) simp_all
    with True show ?thesis by simp
  next
    case False
    then have "w (f a) < w a" using Cons.prems(2) by simp
    with le show ?thesis by simp
  qed
qed

lemma DistributeMult_weight:
  "dm_weight (DistributeMult t) \<le> dm_weight t
   \<and> (DistributeMult t \<noteq> t \<longrightarrow> dm_weight (DistributeMult t) < dm_weight t)"
proof (induction t)
  case (Num c)
  show ?case by simp
next
  case (Name x)
  show ?case by simp
next
  case (UnaryOp u e)
  then show ?case by auto
next
  case (Other k es)
  have le: "sum_list (map dm_weight (map DistributeMult es)) \<le> sum_list (map dm_weight es)"
    using Other.IH by (intro sum_list_map_le) simp
  have "map DistributeMult es \<noteq> es \<Longrightarrow>
        sum_list (map dm_weight (map DistributeMult es)) < sum_list (map dm_weight es)"
    using Other.IH by (intro sum_list_map_less) simp_all
  with le show ?case by (auto simp: o_def)
next
  case (BinOp l b r)
  define l' where "l' = DistributeMult l"
  define r' where "r' = DistributeMult r"
  have l_le: "dm_weight l' \<le> dm_weight l" and r_le: "dm_weight r' \<le> dm_weight r"
    and l_less: "l' \<noteq> l \<Longrightarrow> dm_weight l' < dm_weight l"
    and r_less: "r' \<noteq> r \<Longrightarrow> dm_weight r' < dm_weight r"
    using BinOp.IH by (simp_all add: l'_def r'_def)
  have l2: "2 \<le> dm_weight l'" and r2: "2 \<le> dm_weight r'"
    and l2o: "2 \<le> dm_weight l" and r2o: "2 \<le> dm_weight r"
    by (rule dm_weight_ge2)+
  have prod_le: "dm_weight l' * dm_weight r' \<le> dm_weight l * dm_weight r"
    using l_le r_le by (rule mult_le_mono)
  define c1 where "c1 \<longleftrightarrow> b = Mult \<and> (is_Num r' \<or> is_Name r' \<or> is_UnaryOp r' \<or> is_BinOp r')
            \<and> is_BinOp l' \<and> (bin_op l' = Add \<or> bin_op l' = Sub)"
  define c2 where "c2 \<longleftrightarrow> b = Mult \<and> (is_Num l' \<or> is_Name l' \<or> is_UnaryOp l' \<or> is_BinOp l')
            \<and> is_BinOp r' \<and> (bin_op r' = Add \<or> bin_op r' = Sub)"
  have eq: "DistributeMult (BinOp l b r) =
      (if c1 then BinOp (BinOp (left l') Mult r') (bin_op l') (BinOp (right l') Mult r')
       else if c2 then BinOp (BinOp l' Mult (left r')) (bin_op r') (BinOp l' Mult (right r'))
       else BinOp l' b r')"
    unfolding c1_def c2_def l'_def r'_def by (simp add: Let_def)
  consider (first) c1 | (second) "\<not> c1" c2 | (neither) "\<not> c1" "\<not> c2" by blast
  then show ?case
  proof cases
    case first
    then have bm: "b = Mult" by (simp add: c1_def)
    from first obtain a pm c where l'_eq: "l' = BinOp a pm c" and pm: "pm = Add \<or> pm = Sub"
      unfolding c1_def by (cases l') auto
    have res: "DistributeMult (BinOp l b r) = BinOp (BinOp a Mult r') pm (BinOp c Mult r')"
      using first l'_eq eq by simp
    have "dm_weight (BinOp (BinOp a Mult r') pm (BinOp c Mult r'))
          = dm_weight a * dm_weight r' + dm_weight c * dm_weight r' + 1"
      using pm by auto
    also have "\<dots> < (dm_weight a + dm_weight c + 1) * dm_weight r'"
      using r2 by (simp add: algebra_simps)
    also have "\<dots> = dm_weight l' * dm_weight r'"
      using pm l'_eq by auto
    also have "\<dots> \<le> dm_weight (BinOp l b r)"
      using prod_le bm by simp
    finally show ?thesis using res by simp
  next
    case second
    then have bm: "b = Mult" by (simp add: c2_def)
    from second obtain a pm c where r'_eq: "r' = BinOp a pm c" and pm: "pm = Add \<or> pm = Sub"
      unfolding c2_def by (cases r') auto
    have res: "DistributeMult (BinOp l b r) = BinOp (BinOp l' Mult a) pm (BinOp l' Mult c)"
      using second r'_eq eq by simp
    have "dm_weight (BinOp (BinOp l' Mult a) pm (BinOp l' Mult c))
          = dm_weight l' * dm_weight a + dm_weight l' * dm_weight c + 1"
      using pm by auto
    also have "\<dots> < dm_weight l' * (dm_weight a + dm_weight c + 1)"
      using l2 by (simp add: algebra_simps)
    also have "\<dots> = dm_weight l' * dm_weight r'"
      using pm r'_eq by auto
    also have "\<dots> \<le> dm_weight (BinOp l b r)"
      using prod_le bm by simp
    finally show ?thesis using res by simp
  next
    case neither
    then have neither: "DistributeMult (BinOp l b r) = BinOp l' b r'"
      using eq by simp
    show ?thesis
    proof (cases "b = Mult")
      case True
      have strict: "BinOp l' b r' \<noteq> BinOp l b r \<Longrightarrow>
                    dm_weight l' * dm_weight r' < dm_weight l * dm_weight r"
      proof -
        assume "BinOp l' b r' \<noteq> BinOp l b r"
        then consider "l' \<noteq> l" | "r' \<noteq> r" by auto
        then show ?thesis
        proof cases
          case 1
          then have "dm_weight l' < dm_weight l" by (rule l_less)
          then have "dm_weight l' * dm_weight r' < dm_weight l * dm_weight r'"
            using r2 by simp
          also have "\<dots> \<le> dm_weight l * dm_weight r"
            using r_le by simp
          finally show ?thesis .
        next
          case 2
          then have "dm_weight r' < dm_weight r" by (rule r_less)
          then have "dm_weight l' * dm_weight r' < dm_weight l' * dm_weight r"
            using l2 by simp
          also have "\<dots> \<le> dm_weight l * dm_weight r"
            using l_le by simp
          finally show ?thesis .
        qed
      qed
      show ?thesis using neither True prod_le strict by auto
    next
      case False
      have "BinOp l' b r' \<noteq> BinOp l b r \<Longrightarrow>
            dm_weight l' + dm_weight r' < dm_weight l + dm_weight r"
        using l_le r_le l_less r_less by fastforce
      then show ?thesis using neither False l_le r_le by auto
    qed
  qed
qed

function dist_mult :: "expr \<Rightarrow> expr" where
  "dist_mult tree =
     (let tree' = DistributeMult tree in if tree' = tree then tree' else dist_mult tree')"
  by pat_completeness auto
termination
proof (relation "measure dm_weight")
  show "wf (measure dm_weight)" by simp
next
  fix tree tree' :: expr
  assume "tree' = DistributeMult tree" and "tree' \<noteq> tree"
  then show "(tree', tree) \<in> measure dm_weight"
    using DistributeMult_weight [of tree] by simp
qed

declare dist_mult.simps [simp del]

subsection \<open>The checks after normalisation\<close>

definition expr_has_a_constant :: "expr \<Rightarrow> bool" where
  "expr_has_a_constant tree =
     (let nodes = walk tree
      in if length nodes = 1 \<and> is_Num (hd nodes) then True
         else list_ex (\<lambda>node. is_BinOp node \<and> (bin_op node = Add \<or> bin_op node = Sub)
                               \<and> (is_Num (left node) \<or> is_Num (right node))) (walk tree))"

text \<open>
  \<^verbatim>\<open>_num_of_variables_in_a_product(node)\<close> reads \<^verbatim>\<open>node.op\<close>: it is only ever called on a
  \<^verbatim>\<open>BinOp\<close> (the last equation is never reached).
\<close>

fun num_of_variables_in_a_product :: "expr \<Rightarrow> nat" where
  "num_of_variables_in_a_product (BinOp l b r) =
     (if b = Mult
      then (if is_Name l then 1
            else if is_BinOp l then num_of_variables_in_a_product l else 0)
         + (if is_Name r then 1
            else if is_BinOp r then num_of_variables_in_a_product r else 0)
      else 0)"
| "num_of_variables_in_a_product _ = 0"

definition max_num_variables_in_a_product :: "expr \<Rightarrow> nat" where
  "max_num_variables_in_a_product tree =
     fold (\<lambda>node m. if is_BinOp node then max m (num_of_variables_in_a_product node) else m)
          (walk tree) 0"

definition expr_has_products_of_variables :: "expr \<Rightarrow> bool" where
  "expr_has_products_of_variables tree \<longleftrightarrow> 1 < max_num_variables_in_a_product tree"

fun product_has_name :: "expr \<Rightarrow> bool" where
  "product_has_name (Name x) = True"
| "product_has_name (BinOp l b r) =
     (if b = Mult then product_has_name l \<or> product_has_name r else False)"
| "product_has_name _ = False"

fun product_has_num :: "expr \<Rightarrow> bool" where
  "product_has_num (Num c) = True"
| "product_has_num (BinOp l b r) =
     (if b = Mult then product_has_num l \<or> product_has_num r else False)"
| "product_has_num _ = False"

definition expr_has_constant_right_of_vars :: "expr \<Rightarrow> bool" where
  "expr_has_constant_right_of_vars tree =
     list_ex (\<lambda>node. is_BinOp node \<and> bin_op node = Mult
                      \<and> product_has_name (left node) \<and> product_has_num (right node)) (walk tree)"

subsection \<open>The validator and \_validate\<close>

text \<open>
  The attributes of a \<^verbatim>\<open>LinearParsedExpressionValidator\<close>. \<open>v_tree\<close> is \<^verbatim>\<open>self.tree\<close>
  (\<open>None\<close> while no expression has been parsed).
\<close>

record validator =
  v_expression :: string
  v_tree :: "expr option"
  is_linear :: bool
  opaque_ids :: "(string \<times> string) list"
  next_id :: nat

text \<open>
  The six normalising calls of \<^verbatim>\<open>_validate\<close>, in the order of the source:
  \<^verbatim>\<open>_remove_unary_operators\<close>, \<^verbatim>\<open>_multiply_numbers\<close>, \<^verbatim>\<open>_dist_mult\<close>, \<^verbatim>\<open>_multiply_numbers\<close>,
  \<^verbatim>\<open>_remove_subtraction\<close>, \<^verbatim>\<open>_multiply_numbers\<close>.
\<close>

definition normalise :: "expr \<Rightarrow> expr" where
  "normalise tree =
     (let tree = remove_unary_operators tree;
          tree = multiply_numbers tree;
          tree = dist_mult tree;
          tree = multiply_numbers tree;
          tree = remove_subtraction tree;
          tree = multiply_numbers tree
      in tree)"

text \<open>
  \<^verbatim>\<open>_validate\<close>. Python's \<^verbatim>\<open>ast.parse(self.expression, mode='eval')\<close> is the parameter
  \<open>parse\<close>: \<open>None\<close> is its \<^verbatim>\<open>SyntaxError\<close>, \<open>Some tree\<close> the body of the tree it returns.
\<close>

definition validate_steps ::
  "(string \<Rightarrow> expr option) \<Rightarrow> validator \<Rightarrow> (bool \<times> reason option) \<times> validator" where
  "validate_steps parse v0 =
     (let v = v0\<lparr>is_linear := False\<rparr>
      in case parse (v_expression v) of
           None \<Rightarrow> ((False, Some Python_syntax_error), v)
         | Some tree \<Rightarrow>
             let v = v\<lparr>v_tree := Some tree\<rparr>
             in if \<not> fst (validate_node_types tree) then (validate_node_types tree, v)
                else if \<not> fst (validate_nums tree) then (validate_nums tree, v)
                else
                  let tree = normalise tree;
                      v = v\<lparr>v_tree := Some tree\<rparr>
                  in if expr_has_a_constant tree
                     then ((False, Some Constant_terms), v)
                     else if expr_has_products_of_variables tree
                     then ((False, Some Products_of_variables), v)
                     else if expr_has_constant_right_of_vars tree
                     then ((False, Some Constant_right_of_var), v)
                     else ((True, None), v\<lparr>is_linear := True\<rparr>))"

section \<open>ParsedExpression\<close>

subsection \<open>Python tokens\<close>

text \<open>
  The token numbers of Python's \<^verbatim>\<open>token\<close> module that the source names, and
  \<open>Other_token\<close> (with its \<^verbatim>\<open>token.tok_name\<close>) for every other one. A token of
  \<^verbatim>\<open>tokenize.tokenize\<close> has a \<^verbatim>\<open>type\<close>, a \<^verbatim>\<open>string\<close>, and the (row, column) pairs
  \<^verbatim>\<open>start\<close> and \<^verbatim>\<open>end\<close>.
\<close>

datatype token_num =
    NAME | NUMBER | OP
  | LSQB | RSQB | DOT | COMMA
  | DOUBLESTAR | MINUS | PLUS | SLASH | STAR
  | LPAR | RPAR
  | EQEQUAL | GREATER | GREATEREQUAL | LESS | LESSEQUAL | NOTEQUAL
  | Other_token string

record py_token =
  tok_type :: token_num
  tok_string :: string
  tok_start :: "nat \<times> nat"
  tok_end :: "nat \<times> nat"

text \<open>
  \<^verbatim>\<open>TokenInfo.exact_type\<close>: the operator's own number for an \<^verbatim>\<open>OP\<close> token whose string is
  in \<^verbatim>\<open>EXACT_TOKEN_TYPES\<close>, the type otherwise. The table holds the operators of
  \<^verbatim>\<open>LEGAL_TOKENS_NAMES\<close>; every other operator stays \<open>OP\<close> here, which like its exact type
  in Python is not a legal token.
\<close>

definition EXACT_TOKEN_TYPES :: "(string \<times> token_num) list" where
  "EXACT_TOKEN_TYPES =
     [(''['', LSQB), ('']'', RSQB), (''.'', DOT), ('','', COMMA),
      (''**'', DOUBLESTAR), (''-'', MINUS), (''+'', PLUS), (''/'', SLASH), (''*'', STAR),
      (''('', LPAR), ('')'', RPAR),
      (''=='', EQEQUAL), (''>'', GREATER), (''>='', GREATEREQUAL),
      (''<'', LESS), (''<='', LESSEQUAL), (''!='', NOTEQUAL)]"

definition exact_type :: "py_token \<Rightarrow> token_num" where
  "exact_type tok =
     (if tok_type tok = OP
      then (case map_of EXACT_TOKEN_TYPES (tok_string tok) of Some t \<Rightarrow> t | None \<Rightarrow> OP)
      else tok_type tok)"

definition LEGAL_TOKENS :: "token_num list" where
  "LEGAL_TOKENS =
     [NUMBER, NAME, LSQB, RSQB, DOT, COMMA, DOUBLESTAR, MINUS, PLUS, SLASH, STAR,
      LPAR, RPAR, EQEQUAL, GREATER, GREATEREQUAL, LESS, LESSEQUAL, NOTEQUAL]"

fun tok_name :: "token_num \<Rightarrow> string" where
  "tok_name NAME = ''NAME''"
| "tok_name NUMBER = ''NUMBER''"
| "tok_name OP = ''OP''"
| "tok_name LSQB = ''LSQB''"
| "tok_name RSQB = ''RSQB''"
| "tok_name DOT = ''DOT''"
| "tok_name COMMA = ''COMMA''"
| "tok_name DOUBLESTAR = ''DOUBLESTAR''"
| "tok_name MINUS = ''MINUS''"
| "tok_name PLUS = ''PLUS''"
| "tok_name SLASH = ''SLASH''"
| "tok_name STAR = ''STAR''"
| "tok_name LPAR = ''LPAR''"
| "tok_name RPAR = ''RPAR''"
| "tok_name EQEQUAL = ''EQEQUAL''"
| "tok_name GREATER = ''GREATER''"
| "tok_name GREATEREQUAL = ''GREATEREQUAL''"
| "tok_name LESS = ''LESS''"
| "tok_name LESSEQUAL = ''LESSEQUAL''"
| "tok_name NOTEQUAL = ''NOTEQUAL''"
| "tok_name (Other_token s) = s"

subsection \<open>Model types, instances and the tokens of an expression\<close>

text \<open>
  A model type (a subclass of \<^verbatim>\<open>Model\<close>) is known by its \<^verbatim>\<open>__name__\<close> and its
  \<^verbatim>\<open>Meta\<close>: the token pattern of its ids, and whether it has a truthy
  \<^verbatim>\<open>expression_term_model\<close> or \<^verbatim>\<open>expression_term_value\<close>. An instance has an \<^verbatim>\<open>id\<close>, the
  value of its primary attribute, and its identity as a Python object.
\<close>

record model_type =
  mt_name :: string
  expression_term_token_pattern :: "token_num list"
  expression_term_model :: bool
  expression_term_value :: bool

record model_obj =
  ident :: nat
  mo_id :: string
  primary_attribute :: string

datatype token_code = Obj_id | Math_func_id | Number | Op | Other_code

text \<open>
  \<^verbatim>\<open>ObjTablesToken\<close>: a named tuple whose last three fields default to \<^verbatim>\<open>None\<close>.
  \<^verbatim>\<open>LexMatch\<close> and \<^verbatim>\<open>IdMatch\<close> are named tuples too.
\<close>

record obj_tables_token =
  code :: token_code
  token_string :: string
  tk_model_type :: "model_type option"
  model_id :: "string option"
  model :: "model_obj option"

record lex_match =
  lm_obj_tables_tokens :: "obj_tables_token list"
  num_py_tokens :: nat

record id_match =
  im_model_type :: model_type
  im_token_pattern :: "token_num list"
  match_string :: string

text \<open>
  The error strings of tokenization, one constructor for each message; the expression,
  the model class and the attribute that every message repeats are left out. Where the
  source joins the elements of a Python set, the set is kept.
\<close>

datatype tok_error =
    Expression_cannot_be_empty
  | Bad_tokens "string set"
  | Not_ids_of_an_object "string set"
  | Multiple_model_object_id_matches "(string \<times> string) set"
  | Disambiguation_type_cannot_be_referenced string string
  | Not_the_id_of_a string string string
  | No_expression_valid_functions string
  | Func_not_in_expression_valid_functions string "string set"
  | Token_is_ambiguous string "string list"
  | Compile_SyntaxError

text \<open>What a lexer function returns: \<^verbatim>\<open>None\<close>, an error string or a \<^verbatim>\<open>LexMatch\<close>.\<close>

text \<open>
  The exceptions raised on the way: the three \<^verbatim>\<open>ParsedExpressionError\<close>s of \<^verbatim>\<open>tokenize\<close>
  and \<^verbatim>\<open>get_str\<close>, the \<^verbatim>\<open>SyntaxError\<close> of Python's \<^verbatim>\<open>compile\<close>, and the \<^verbatim>\<open>KeyError\<close>,
  \<^verbatim>\<open>IndexError\<close>, \<^verbatim>\<open>AttributeError\<close> and \<^verbatim>\<open>TypeError\<close> of a missing dictionary key, of a
  \<^verbatim>\<open>pop\<close> from an empty container, of an attribute read on \<^verbatim>\<open>None\<close> and of \<^verbatim>\<open>float()\<close>
  on a complex number.
\<close>

datatype raised =
    No_matches_or_errors_found
  | Multiple_longest_matches
  | Not_successfully_tokenized
  | SyntaxError
  | KeyError
  | IndexError
  | AttributeError
  | TypeError

text \<open>
  What a lexer function returns: \<^verbatim>\<open>None\<close>, an error string or a \<^verbatim>\<open>LexMatch\<close>; or the
  exception it raises.
\<close>

datatype lex_result = No_match | Lex_error tok_error | Lex_found lex_match | Lex_raised raised

datatype pyfloat = Fl real | NaN

datatype 'v ns_entry = Function | Dimensionless | Values "string \<Rightarrow> 'v option"

text \<open>
  The attributes of a \<^verbatim>\<open>ParsedExpression\<close>. \<open>objs\<close> is \<^verbatim>\<open>self._objs.get(model_type, {})\<close>;
  \<open>meta_expression_valid_functions\<close> is \<^verbatim>\<open>model_cls.Meta.expression_valid_functions\<close> by
  name (\<open>None\<close> when \<^verbatim>\<open>Meta\<close> has no such attribute); \<open>unit_registry\<close> says whether
  \<^verbatim>\<open>self.unit_registry\<close> is set. The dictionaries the code fills and
  iterates are association lists in insertion order; a compiled expression is known by
  the text it was compiled from (\<open>None\<close> is the empty string of a fresh instance).
\<close>

record 'v parsed_expression =
  model_cls_name :: string
  attr :: string
  expression :: string
  py_tokens :: "py_token list"
  objs :: "model_type \<Rightarrow> string \<Rightarrow> model_obj option"
  term_models :: "model_type list"
  meta_expression_valid_functions :: "string list option"
  unit_registry :: bool
  related_objects :: "(model_type \<times> (string \<times> model_obj) list) list"
  lin_coeffs :: "(model_type \<times> (model_obj \<times> pyfloat) list) list"
  errors :: "tok_error list"
  obj_tables_tokens :: "obj_tables_token list"
  compiled_expression :: "string option"
  compiled_expression_with_units :: "string option"
  compiled_namespace :: "(string \<times> 'v ns_entry) list"
  compiled_namespace_with_units :: "(string \<times> 'v ns_entry) list"

text \<open>\<^verbatim>\<open>self.valid_functions\<close>, as \<^verbatim>\<open>__init__\<close> sets it.\<close>

definition valid_functions :: "'v parsed_expression \<Rightarrow> string list" where
  "valid_functions pe =
     (case meta_expression_valid_functions pe of None \<Rightarrow> [] | Some fs \<Rightarrow> remdups fs)"

definition reset_tokenization :: "'v parsed_expression \<Rightarrow> 'v parsed_expression" where
  "reset_tokenization pe =
     pe\<lparr>related_objects := fold (\<lambda>mt. AList.update mt []) (term_models pe) [],
        lin_coeffs := fold (\<lambda>mt. AList.update mt []) (term_models pe) [],
        errors := [],
        obj_tables_tokens := [],
        compiled_expression := None,
        compiled_expression_with_units := None,
        compiled_namespace := [],
        compiled_namespace_with_units := []\<rparr>"

subsection \<open>The three lexers\<close>

definition MODEL_TYPE_DISAMBIG_PATTERN :: "token_num list" where
  "MODEL_TYPE_DISAMBIG_PATTERN = [NAME, DOT, NAME]"

definition FUNC_PATTERN :: "token_num list" where
  "FUNC_PATTERN = [NAME, LPAR]"

definition startswith :: "string \<Rightarrow> string \<Rightarrow> bool" where
  "startswith s prefix \<longleftrightarrow> take (length prefix) s = prefix"

text \<open>
  The text a token contributes: \<^verbatim>\<open>tok.string[9:]\<close> for a \<^verbatim>\<open>NAME\<close> that starts with
  \<^verbatim>\<open>__digit__\<close>, \<^verbatim>\<open>tok.string\<close> otherwise.
\<close>

definition strip_digit_prefix :: "py_token \<Rightarrow> string" where
  "strip_digit_prefix tok =
     (if tok_type tok = NAME \<and> startswith (tok_string tok) ''__digit__''
      then drop 9 (tok_string tok) else tok_string tok)"

text \<open>\<^verbatim>\<open>_match_tokens\<close>: \<open>None\<close> is its \<^verbatim>\<open>False\<close>.\<close>

definition match_tokens :: "'v parsed_expression \<Rightarrow> token_num list \<Rightarrow> nat \<Rightarrow> string option" where
  "match_tokens pe token_pattern idx =
     (if token_pattern = [] then None
      else if length (py_tokens pe) - idx < length token_pattern then None
      else if list_ex
                (\<lambda>tok_idx.
                   exact_type (py_tokens pe ! (idx + tok_idx)) \<noteq> token_pattern ! tok_idx
                   \<or> (0 < tok_idx
                      \<and> tok_end (py_tokens pe ! (idx + tok_idx - 1))
                          \<noteq> tok_start (py_tokens pe ! (idx + tok_idx))))
                [0 ..< length token_pattern]
      then None
      else Some (concat (map strip_digit_prefix
                   (take (length token_pattern) (drop idx (py_tokens pe))))))"

definition get_model_type :: "'v parsed_expression \<Rightarrow> string \<Rightarrow> model_type option" where
  "get_model_type pe name = find (\<lambda>mt. name = mt_name mt) (term_models pe)"

text \<open>
  \<^verbatim>\<open>_get_disambiguated_id\<close>. \<open>casefold\<close> is Python's \<^verbatim>\<open>str.casefold\<close>. A match string that
  is empty counts as no match (\<^verbatim>\<open>if disambig_model_match:\<close>).
\<close>

definition get_disambiguated_id ::
  "(string \<Rightarrow> string) \<Rightarrow> 'v parsed_expression \<Rightarrow> nat \<Rightarrow> bool \<Rightarrow> lex_result" where
  "get_disambiguated_id casefold pe idx case_fold_match =
     (case match_tokens pe MODEL_TYPE_DISAMBIG_PATTERN idx of
        None \<Rightarrow> No_match
      | Some disambig_model_match \<Rightarrow>
          if disambig_model_match = [] then No_match
          else
            let disambig_model_type = tok_string (py_tokens pe ! idx);
                possible_model_id = tok_string (py_tokens pe ! (idx + 2));
                possible_model_id =
                  (if case_fold_match then casefold possible_model_id else possible_model_id)
            in case get_model_type pe disambig_model_type of
                 None \<Rightarrow>
                   Lex_error (Disambiguation_type_cannot_be_referenced
                                disambig_model_match disambig_model_type)
               | Some mt \<Rightarrow>
                   (case objs pe mt possible_model_id of
                      None \<Rightarrow>
                        Lex_error (Not_the_id_of_a disambig_model_match possible_model_id
                                     disambig_model_type)
                    | Some m \<Rightarrow>
                        Lex_found
                          \<lparr>lm_obj_tables_tokens =
                             [\<lparr>code = Obj_id, token_string = disambig_model_match,
                               tk_model_type = Some mt, model_id = Some possible_model_id,
                               model = Some m\<rparr>],
                           num_py_tokens = length MODEL_TYPE_DISAMBIG_PATTERN\<rparr>))"

text \<open>
  The first loop of \<^verbatim>\<open>_get_related_obj_id\<close>: over the term models, collecting the sets
  \<^verbatim>\<open>token_matches\<close> and \<^verbatim>\<open>id_matches\<close> (lists without repetition here).
\<close>

definition scan_step ::
  "(string \<Rightarrow> string) \<Rightarrow> 'v parsed_expression \<Rightarrow> nat \<Rightarrow> bool \<Rightarrow> model_type
     \<Rightarrow> string list \<times> id_match list \<Rightarrow> string list \<times> id_match list" where
  "scan_step casefold pe idx case_fold_match mt acc =
     (let token_matches = fst acc; id_matches = snd acc;
          token_pattern = expression_term_token_pattern mt
      in case match_tokens pe token_pattern idx of
           None \<Rightarrow> (token_matches, id_matches)
         | Some ms \<Rightarrow>
             if ms = [] then (token_matches, id_matches)
             else (List.insert ms token_matches,
                   if objs pe mt (if case_fold_match then casefold ms else ms) \<noteq> None
                   then List.insert
                          \<lparr>im_model_type = mt, im_token_pattern = token_pattern,
                           match_string = ms\<rparr> id_matches
                   else id_matches))"

definition scan_term_models ::
  "(string \<Rightarrow> string) \<Rightarrow> 'v parsed_expression \<Rightarrow> nat \<Rightarrow> bool \<Rightarrow> string list \<times> id_match list" where
  "scan_term_models casefold pe idx case_fold_match =
     fold (scan_step casefold pe idx case_fold_match) (term_models pe) ([], [])"

text \<open>
  "As lexers always do, pick the longest match": sort by the length of the match string,
  then pop from the end while the last has the longest length.
\<close>

definition longest_id_matches :: "id_match list \<Rightarrow> id_match list" where
  "longest_id_matches id_matches =
     (if 1 < length id_matches
      then
        let id_matches_by_length = sort_key (\<lambda>m. length (match_string m)) id_matches;
            longest_length = length (match_string (last id_matches_by_length))
        in takeWhile (\<lambda>m. length (match_string m) = longest_length) (rev id_matches_by_length)
      else id_matches)"

definition get_related_obj_id ::
  "(string \<Rightarrow> string) \<Rightarrow> 'v parsed_expression \<Rightarrow> nat \<Rightarrow> bool \<Rightarrow> lex_result" where
  "get_related_obj_id casefold pe idx case_fold_match =
     (let (token_matches, id_matches) = scan_term_models casefold pe idx case_fold_match
      in if id_matches = []
         then (if token_matches \<noteq> [] then Lex_error (Not_ids_of_an_object (set token_matches))
               else No_match)
         else
           let id_matches = longest_id_matches id_matches
           in if 1 < length id_matches
              then Lex_error (Multiple_model_object_id_matches
                     (set (map (\<lambda>m. (match_string m, mt_name (im_model_type m))) id_matches)))
              else
                (case id_matches of
                   [] \<Rightarrow> Lex_raised KeyError
                 | m # _ \<Rightarrow>
                     let right_case_match_string =
                           (if case_fold_match then casefold (match_string m) else match_string m)
                     in case objs pe (im_model_type m) right_case_match_string of
                          None \<Rightarrow> Lex_raised KeyError
                        | Some inst \<Rightarrow>
                            Lex_found
                              \<lparr>lm_obj_tables_tokens =
                                 [\<lparr>code = Obj_id, token_string = match_string m,
                                   tk_model_type = Some (im_model_type m),
                                   model_id = Some right_case_match_string,
                                   model = Some inst\<rparr>],
                               num_py_tokens = length (im_token_pattern m)\<rparr>))"

definition get_func_call_id :: "'v parsed_expression \<Rightarrow> nat \<Rightarrow> lex_result" where
  "get_func_call_id pe idx =
     (case match_tokens pe FUNC_PATTERN idx of
        None \<Rightarrow> No_match
      | Some func_match \<Rightarrow>
          if func_match = [] then No_match
          else
            let func_name = tok_string (py_tokens pe ! idx)
            in case meta_expression_valid_functions pe of
                 None \<Rightarrow> Lex_error (No_expression_valid_functions func_name)
               | Some fs \<Rightarrow>
                   let function_ids = remdups fs
                   in if func_name \<notin> set function_ids
                      then Lex_error (Func_not_in_expression_valid_functions func_name
                                        (set function_ids))
                      else Lex_found
                             \<lparr>lm_obj_tables_tokens =
                                [\<lparr>code = Math_func_id, token_string = func_name,
                                  tk_model_type = None, model_id = None, model = None\<rparr>,
                                 \<lparr>code = Op, token_string = ''('',
                                  tk_model_type = None, model_id = None, model = None\<rparr>],
                              num_py_tokens = length FUNC_PATTERN\<rparr>)"

subsection \<open>tokenize\<close>

fun found_matches :: "lex_result list \<Rightarrow> lex_match list" where
  "found_matches [] = []"
| "found_matches (Lex_found m # rs) = m # found_matches rs"
| "found_matches (_ # rs) = found_matches rs"

fun found_errors :: "lex_result list \<Rightarrow> tok_error list" where
  "found_errors [] = []"
| "found_errors (Lex_error e # rs) = e # found_errors rs"
| "found_errors (_ # rs) = found_errors rs"

fun first_raised :: "lex_result list \<Rightarrow> raised option" where
  "first_raised [] = None"
| "first_raised (Lex_raised r # rs) = Some r"
| "first_raised (_ # rs) = first_raised rs"

definition longest_matches :: "lex_match list \<Rightarrow> lex_match list" where
  "longest_matches matches =
     (let matches_by_length = sort_key num_py_tokens matches;
          longest_length = num_py_tokens (last matches_by_length)
      in takeWhile (\<lambda>m. num_py_tokens m = longest_length) (rev matches_by_length))"

text \<open>
  The body of the \<^verbatim>\<open>while\<close> loop at a \<^verbatim>\<open>NAME\<close> token: the three lexers in the order of
  the source, then the raise, the \<^verbatim>\<open>break\<close> with the errors, or the one longest match.
\<close>

datatype step = Step_raise raised | Step_break "tok_error list" | Step_match lex_match

definition lex_name ::
  "(string \<Rightarrow> string) \<Rightarrow> 'v parsed_expression \<Rightarrow> nat \<Rightarrow> bool \<Rightarrow> step" where
  "lex_name casefold pe idx case_fold_match =
     (let results = [get_related_obj_id casefold pe idx case_fold_match,
                     get_disambiguated_id casefold pe idx case_fold_match,
                     get_func_call_id pe idx]
      in case first_raised results of
           Some r \<Rightarrow> Step_raise r
         | None \<Rightarrow>
             let matches = found_matches results; tmp_errors = found_errors results
             in if matches = [] \<and> tmp_errors = [] then Step_raise No_matches_or_errors_found
                else if tmp_errors \<noteq> [] \<and> matches = [] then Step_break tmp_errors
                else
                  let longest = longest_matches matches
                  in if 1 < length longest then Step_raise Multiple_longest_matches
                     else (case rev longest of
                             [] \<Rightarrow> Step_raise IndexError
                           | m # _ \<Rightarrow> Step_match m))"

text \<open>
  \<^verbatim>\<open>self.related_objects[tok.model_type][tok.model_id] = tok.model\<close> for the tokens of a
  match whose code is \<^verbatim>\<open>obj_id\<close>.
\<close>

definition add_related ::
  "obj_tables_token \<Rightarrow> (model_type \<times> (string \<times> model_obj) list) list
     \<Rightarrow> raised + (model_type \<times> (string \<times> model_obj) list) list" where
  "add_related tok rel =
     (if code tok = Obj_id
      then (case (tk_model_type tok, model_id tok, model tok) of
              (Some mt, Some i, Some m) \<Rightarrow>
                (case map_of rel mt of
                   None \<Rightarrow> Inl KeyError
                 | Some d \<Rightarrow> Inr (AList.update mt (AList.update i m d) rel))
            | _ \<Rightarrow> Inl KeyError)
      else Inr rel)"

fun add_all_related ::
  "obj_tables_token list \<Rightarrow> (model_type \<times> (string \<times> model_obj) list) list
     \<Rightarrow> raised + (model_type \<times> (string \<times> model_obj) list) list" where
  "add_all_related [] rel = Inr rel"
| "add_all_related (tok # toks) rel =
     (case add_related tok rel of Inl r \<Rightarrow> Inl r | Inr rel' \<Rightarrow> add_all_related toks rel')"

text \<open>Every match of a lexer consumes at least one Python token, so the loop advances.\<close>

lemma match_tokens_SomeD:
  assumes "match_tokens pe pat idx = Some s"
  shows "pat \<noteq> [] \<and> idx + length pat \<le> length (py_tokens pe)"
proof -
  from assms have ne: "pat \<noteq> []" and "\<not> length (py_tokens pe) - idx < length pat"
    by (auto simp: match_tokens_def split: if_splits)
  moreover from ne have "0 < length pat" by simp
  ultimately show ?thesis by arith
qed

definition id_match_ok ::
  "(string \<Rightarrow> string) \<Rightarrow> 'v parsed_expression \<Rightarrow> nat \<Rightarrow> bool \<Rightarrow> id_match \<Rightarrow> bool" where
  "id_match_ok casefold pe idx case_fold_match m \<longleftrightarrow>
     im_model_type m \<in> set (term_models pe)
     \<and> im_token_pattern m = expression_term_token_pattern (im_model_type m)
     \<and> match_tokens pe (expression_term_token_pattern (im_model_type m)) idx
                = Some (match_string m)
     \<and> match_string m \<noteq> []
     \<and> objs pe (im_model_type m)
          (if case_fold_match then casefold (match_string m) else match_string m) \<noteq> None"

lemma scan_step_snd:
  assumes "m \<in> set (snd (scan_step casefold pe idx cfm mt acc))"
  shows "m \<in> set (snd acc)
         \<or> (im_model_type m = mt
            \<and> im_token_pattern m = expression_term_token_pattern mt
            \<and> match_tokens pe (expression_term_token_pattern mt) idx = Some (match_string m)
            \<and> match_string m \<noteq> []
            \<and> objs pe mt (if cfm then casefold (match_string m) else match_string m) \<noteq> None)"
  using assms by (auto simp: scan_step_def Let_def split: option.splits if_splits)

lemma scan_fold_snd:
  assumes "m \<in> set (snd (fold (scan_step casefold pe idx cfm) mts acc))"
  shows "m \<in> set (snd acc)
         \<or> (im_model_type m \<in> set mts
            \<and> im_token_pattern m = expression_term_token_pattern (im_model_type m)
            \<and> match_tokens pe (expression_term_token_pattern (im_model_type m)) idx
                = Some (match_string m)
            \<and> match_string m \<noteq> []
            \<and> objs pe (im_model_type m)
                 (if cfm then casefold (match_string m) else match_string m) \<noteq> None)"
  using assms
proof (induction mts arbitrary: acc)
  case Nil
  then show ?case by simp
next
  case (Cons mt mts)
  from Cons.prems have "m \<in> set (snd (fold (scan_step casefold pe idx cfm) mts
                                        (scan_step casefold pe idx cfm mt acc)))"
    by simp
  from Cons.IH [OF this] show ?case
  proof
    assume "m \<in> set (snd (scan_step casefold pe idx cfm mt acc))"
    from scan_step_snd [OF this] show ?thesis by auto
  next
    assume "im_model_type m \<in> set mts
         \<and> im_token_pattern m = expression_term_token_pattern (im_model_type m)
         \<and> match_tokens pe (expression_term_token_pattern (im_model_type m)) idx
                = Some (match_string m)
         \<and> match_string m \<noteq> []
         \<and> objs pe (im_model_type m)
              (if cfm then casefold (match_string m) else match_string m) \<noteq> None"
    then show ?thesis by simp
  qed
qed

lemma scan_term_models_ok:
  "m \<in> set (snd (scan_term_models casefold pe idx cfm)) \<Longrightarrow> id_match_ok casefold pe idx cfm m"
  unfolding scan_term_models_def id_match_ok_def
  by (drule scan_fold_snd) simp

lemma longest_id_matches_subset: "set (longest_id_matches ims) \<subseteq> set ims"
  by (auto simp: longest_id_matches_def Let_def dest: set_takeWhileD)

lemma get_related_obj_id_found:
  assumes "get_related_obj_id casefold pe idx cfm = Lex_found lm"
  shows "\<exists>m inst. id_match_ok casefold pe idx cfm m
           \<and> objs pe (im_model_type m)
                (if cfm then casefold (match_string m) else match_string m) = Some inst
           \<and> lm = \<lparr>lm_obj_tables_tokens =
                     [\<lparr>code = Obj_id, token_string = match_string m,
                       tk_model_type = Some (im_model_type m),
                       model_id = Some (if cfm then casefold (match_string m) else match_string m),
                       model = Some inst\<rparr>],
                    num_py_tokens = length (im_token_pattern m)\<rparr>"
proof -
  obtain tms ims where scan: "scan_term_models casefold pe idx cfm = (tms, ims)"
    by (cases "scan_term_models casefold pe idx cfm")
  from assms scan obtain m rest inst where
      l: "longest_id_matches ims = m # rest"
    and o: "objs pe (im_model_type m)
              (if cfm then casefold (match_string m) else match_string m) = Some inst"
    and lm: "lm = \<lparr>lm_obj_tables_tokens =
                     [\<lparr>code = Obj_id, token_string = match_string m,
                       tk_model_type = Some (im_model_type m),
                       model_id = Some (if cfm then casefold (match_string m) else match_string m),
                       model = Some inst\<rparr>],
                    num_py_tokens = length (im_token_pattern m)\<rparr>"
    by (auto simp: get_related_obj_id_def Let_def split: if_splits list.splits option.splits)
  from l have "m \<in> set ims" using longest_id_matches_subset [of ims] by auto
  then have "id_match_ok casefold pe idx cfm m"
    using scan scan_term_models_ok [of m casefold pe idx cfm] by simp
  with o lm show ?thesis by blast
qed

lemma get_related_obj_id_pos:
  "get_related_obj_id casefold pe idx cfm = Lex_found lm \<Longrightarrow> 0 < num_py_tokens lm"
  by (drule get_related_obj_id_found) (auto simp: id_match_ok_def dest: match_tokens_SomeD)

lemma get_disambiguated_id_pos:
  "get_disambiguated_id casefold pe idx cfm = Lex_found lm \<Longrightarrow> 0 < num_py_tokens lm"
  by (auto simp: get_disambiguated_id_def MODEL_TYPE_DISAMBIG_PATTERN_def Let_def
           split: option.splits if_splits)

lemma get_func_call_id_pos:
  "get_func_call_id pe idx = Lex_found lm \<Longrightarrow> 0 < num_py_tokens lm"
  by (auto simp: get_func_call_id_def FUNC_PATTERN_def Let_def split: option.splits if_splits)

lemma longest_matches_subset: "set (longest_matches ms) \<subseteq> set ms"
  by (auto simp: longest_matches_def Let_def dest: set_takeWhileD)

lemma found_matches_mem: "m \<in> set (found_matches rs) \<Longrightarrow> Lex_found m \<in> set rs"
  by (induction rs rule: found_matches.induct) auto

lemma lex_name_Step_match:
  assumes "lex_name casefold pe idx cfm = Step_match m"
  shows "get_related_obj_id casefold pe idx cfm = Lex_found m
         \<or> get_disambiguated_id casefold pe idx cfm = Lex_found m
         \<or> get_func_call_id pe idx = Lex_found m"
proof -
  define results where "results = [get_related_obj_id casefold pe idx cfm,
                     get_disambiguated_id casefold pe idx cfm,
                     get_func_call_id pe idx]"
  from assms have "m \<in> set (rev (longest_matches (found_matches results)))"
    unfolding lex_name_def results_def [symmetric]
    by (auto simp: Let_def split: option.splits if_splits list.splits)
  then have "m \<in> set (found_matches results)"
    using longest_matches_subset by auto
  then have "Lex_found m \<in> set results" by (rule found_matches_mem)
  then show ?thesis by (auto simp: results_def)
qed

lemma lex_name_Step_match_pos:
  "lex_name casefold pe idx cfm = Step_match m \<Longrightarrow> 0 < num_py_tokens m"
  using get_related_obj_id_pos get_disambiguated_id_pos get_func_call_id_pos
  by (blast dest: lex_name_Step_match)

text \<open>
  The \<^verbatim>\<open>while idx < len(self._py_tokens)\<close> loop of \<^verbatim>\<open>tokenize\<close>. The result is the
  exception that left the loop, if any, and the instance as the loop left it.
\<close>

function tokenize_loop ::
  "(string \<Rightarrow> string) \<Rightarrow> bool \<Rightarrow> 'v parsed_expression \<Rightarrow> nat
     \<Rightarrow> raised option \<times> 'v parsed_expression" where
  "tokenize_loop casefold case_fold_match pe idx =
     (if idx < length (py_tokens pe)
      then
        (let tok = py_tokens pe ! idx;
             obj_tables_token_code =
               (if tok_type tok = OP then Op
                else if tok_type tok = NUMBER then Number else Other_code)
         in if tok_type tok \<noteq> NAME
            then tokenize_loop casefold case_fold_match
                   (pe\<lparr>obj_tables_tokens := obj_tables_tokens pe @
                         [\<lparr>code = obj_tables_token_code, token_string = tok_string tok,
                           tk_model_type = None, model_id = None, model = None\<rparr>]\<rparr>)
                   (idx + 1)
            else
              (case lex_name casefold pe idx case_fold_match of
                 Step_raise r \<Rightarrow> (Some r, pe)
               | Step_break tmp_errors \<Rightarrow> (None, pe\<lparr>errors := tmp_errors\<rparr>)
               | Step_match m \<Rightarrow>
                   (let pe' = pe\<lparr>obj_tables_tokens :=
                                   obj_tables_tokens pe @ lm_obj_tables_tokens m\<rparr>
                    in case add_all_related (lm_obj_tables_tokens m) (related_objects pe') of
                         Inl r \<Rightarrow> (Some r, pe')
                       | Inr rel \<Rightarrow>
                           tokenize_loop casefold case_fold_match
                             (pe'\<lparr>related_objects := rel\<rparr>) (idx + num_py_tokens m))))
      else (None, pe))"
  by pat_completeness auto
termination
proof (relation "measure (\<lambda>(casefold, case_fold_match, pe, idx). length (py_tokens pe) - idx)")
  show "wf (measure (\<lambda>(casefold, case_fold_match, pe, idx). length (py_tokens pe) - idx))"
    by simp
next
  fix casefold :: "string \<Rightarrow> string" and case_fold_match :: bool
    and pe :: "'v parsed_expression" and idx :: nat and tok c
  assume "idx < length (py_tokens pe)"
  then show "((casefold, case_fold_match,
               pe\<lparr>obj_tables_tokens := obj_tables_tokens pe @
                     [\<lparr>code = c, token_string = tok_string tok,
                       tk_model_type = None, model_id = None, model = None\<rparr>]\<rparr>,
               idx + 1),
              (casefold, case_fold_match, pe, idx))
             \<in> measure (\<lambda>(casefold, case_fold_match, pe, idx). length (py_tokens pe) - idx)"
    by simp
next
  fix casefold :: "string \<Rightarrow> string" and case_fold_match :: bool
    and pe pe' :: "'v parsed_expression" and idx :: nat and m rel
  assume "idx < length (py_tokens pe)"
    and "lex_name casefold pe idx case_fold_match = Step_match m"
    and "pe' = pe\<lparr>obj_tables_tokens := obj_tables_tokens pe @ lm_obj_tables_tokens m\<rparr>"
  then show "((casefold, case_fold_match, pe'\<lparr>related_objects := rel\<rparr>, idx + num_py_tokens m),
              (casefold, case_fold_match, pe, idx))
             \<in> measure (\<lambda>(casefold, case_fold_match, pe, idx). length (py_tokens pe) - idx)"
    using lex_name_Step_match_pos [of casefold pe idx case_fold_match m] by simp
qed

declare tokenize_loop.simps [simp del]

text \<open>The set \<^verbatim>\<open>bad_tokens\<close> of \<^verbatim>\<open>tokenize\<close>.\<close>

definition bad_tokens :: "py_token list \<Rightarrow> string list" where
  "bad_tokens toks =
     fold (\<lambda>tok bad.
             if exact_type tok \<notin> set LEGAL_TOKENS
             then (if tok_string tok \<noteq> [] \<and> tok_string tok \<noteq> '' ''
                   then List.insert (tok_string tok) bad
                   else List.insert (tok_name (tok_type tok)) bad)
             else bad)
          toks []"

text \<open>"Detect ambiguous tokens": the scan after the loop.\<close>

definition matching_items :: "'v parsed_expression \<Rightarrow> obj_tables_token \<Rightarrow> string list" where
  "matching_items pe tok =
     map mt_name (filter (\<lambda>mt. objs pe mt (token_string tok) \<noteq> None) (term_models pe))
     @ (if token_string tok \<in> set (valid_functions pe) then [''function''] else [])"

definition ambiguity_errors :: "'v parsed_expression \<Rightarrow> tok_error list" where
  "ambiguity_errors pe =
     concat (map (\<lambda>tok.
                    if code tok = Obj_id \<or> code tok = Math_func_id
                    then (if 1 < length (matching_items pe tok)
                          then [Token_is_ambiguous (token_string tok) (matching_items pe tok)]
                          else [])
                    else [])
                 (obj_tables_tokens pe))"

subsection \<open>get\_str and \_compile\<close>

fun join :: "string \<Rightarrow> string list \<Rightarrow> string" where
  "join sep [] = []"
| "join sep [x] = x"
| "join sep (x # y # ys) = x @ sep @ join sep (y # ys)"

text \<open>
  \<^verbatim>\<open>_obj_tables_token_to_str\<close>: \<^verbatim>\<open>'{}["{}"]'.format(token.model_type.__name__,
  token.model.get_primary_attribute())\<close>; an \<^verbatim>\<open>AttributeError\<close> (\<open>None\<close>) on a token without
  a model type or a model.
\<close>

definition obj_tables_token_to_str :: "obj_tables_token \<Rightarrow> string option" where
  "obj_tables_token_to_str tok =
     (case (tk_model_type tok, model tok) of
        (Some mt, Some m) \<Rightarrow>
          Some (mt_name mt @ ''['' @ [CHR 0x22] @ primary_attribute m @ [CHR 0x22] @ '']'')
      | _ \<Rightarrow> None)"

definition token_text ::
  "(obj_tables_token \<Rightarrow> string option) \<Rightarrow> bool \<Rightarrow> string \<Rightarrow> obj_tables_token \<Rightarrow> string option" where
  "token_text to_str with_units number_units tok =
     (if code tok = Obj_id then to_str tok
      else if code tok = Number
      then (if with_units then Some (token_string tok @ number_units)
            else Some (token_string tok))
      else Some (token_string tok))"

fun all_texts :: "'a option list \<Rightarrow> 'a list option" where
  "all_texts [] = Some []"
| "all_texts (None # xs) = None"
| "all_texts (Some x # xs) = (case all_texts xs of None \<Rightarrow> None | Some ys \<Rightarrow> Some (x # ys))"

definition get_str ::
  "'v parsed_expression \<Rightarrow> (obj_tables_token \<Rightarrow> string option) \<Rightarrow> bool \<Rightarrow> string
     \<Rightarrow> raised + string" where
  "get_str pe to_str with_units number_units =
     (if obj_tables_tokens pe = [] then Inl Not_successfully_tokenized
      else (case all_texts (map (token_text to_str with_units number_units)
                              (obj_tables_tokens pe)) of
              None \<Rightarrow> Inl AttributeError
            | Some tokens \<Rightarrow> Inr (join '' '' tokens)))"

text \<open>
  \<^verbatim>\<open>_compile\<close>. Python's \<^verbatim>\<open>compile(str_expression, '<ParsedExpression>', 'eval')\<close> is the
  parameter \<open>py_compile\<close>: whether the text compiles (\<open>False\<close> is its \<^verbatim>\<open>SyntaxError\<close>).
\<close>

definition compile_expression ::
  "(string \<Rightarrow> bool) \<Rightarrow> 'v parsed_expression \<Rightarrow> bool
     \<Rightarrow> raised + (string \<times> (string \<times> 'v ns_entry) list)" where
  "compile_expression py_compile pe with_units =
     (case get_str pe obj_tables_token_to_str with_units '' * __dimensionless__'' of
        Inl r \<Rightarrow> Inl r
      | Inr str_expression \<Rightarrow>
          if \<not> py_compile str_expression then Inl SyntaxError
          else
            let compiled_namespace = map (\<lambda>f. (f, Function)) (valid_functions pe);
                compiled_namespace =
                  (if with_units \<and> unit_registry pe
                   then AList.update ''__dimensionless__'' Dimensionless compiled_namespace
                   else compiled_namespace)
            in Inr (str_expression, compiled_namespace))"

text \<open>
  \<^verbatim>\<open>tokenize\<close>: the exception it raises, or the triple it returns (each component
  \<^verbatim>\<open>None\<close> or a value), and the instance afterwards.
\<close>

datatype tokenize_result =
    Raises raised
  | Returns "obj_tables_token list option"
            "(model_type \<times> (string \<times> model_obj) list) list option"
            "tok_error list option"

definition tokenize ::
  "(string \<Rightarrow> string) \<Rightarrow> (string \<Rightarrow> bool) \<Rightarrow> 'v parsed_expression \<Rightarrow> bool
     \<Rightarrow> tokenize_result \<times> 'v parsed_expression" where
  "tokenize casefold py_compile pe0 case_fold_match =
     (let pe = reset_tokenization pe0
      in if expression pe = []
         then (let pe = pe\<lparr>errors := errors pe @ [Expression_cannot_be_empty]\<rparr>
               in (Returns None None (Some (errors pe)), pe))
         else if bad_tokens (py_tokens pe) \<noteq> []
         then (let pe = pe\<lparr>errors := errors pe @ [Bad_tokens (set (bad_tokens (py_tokens pe)))]\<rparr>
               in (Returns None None (Some (errors pe)), pe))
         else
           (case tokenize_loop casefold case_fold_match pe 0 of
              (Some r, pe) \<Rightarrow> (Raises r, pe)
            | (None, pe) \<Rightarrow>
                let pe = pe\<lparr>errors := errors pe @ ambiguity_errors pe\<rparr>
                in if errors pe \<noteq> [] then (Returns None None (Some (errors pe)), pe)
                   else
                     (case compile_expression py_compile pe False of
                        Inl r \<Rightarrow>
                          if r = SyntaxError
                          then (Returns None None (Some [Compile_SyntaxError]), pe)
                          else (Raises r, pe)
                      | Inr (ce, ns) \<Rightarrow>
                          let pe = pe\<lparr>compiled_expression := Some ce, compiled_namespace := ns\<rparr>
                          in case compile_expression py_compile pe True of
                               Inl r \<Rightarrow> (Raises r, pe)
                             | Inr (ceu, nsu) \<Rightarrow>
                                 let pe = pe\<lparr>compiled_expression_with_units := Some ceu,
                                             compiled_namespace_with_units := nsu\<rparr>
                                 in (Returns (Some (obj_tables_tokens pe))
                                             (Some (related_objects pe)) None, pe))))"

section \<open>LinearParsedExpressionValidator.validate\<close>

subsection \<open>The expression with Python identifiers\<close>

definition digit_char :: "nat \<Rightarrow> char" where
  "digit_char d = char_of (48 + d)"

fun str_nat :: "nat \<Rightarrow> string" where
  "str_nat n = (if n < 10 then [digit_char n] else str_nat (n div 10) @ [digit_char (n mod 10)])"

declare str_nat.simps [simp del]

definition VALID_PYTHON_ID_PREFIX :: string where
  "VALID_PYTHON_ID_PREFIX = ''opaque_model_id_''"

text \<open>
  \<^verbatim>\<open>_convert_model_id_to_python_id\<close>. The parameter \<open>is_python_id\<close> is
  \<^verbatim>\<open>model_id.isidentifier() and not keyword.iskeyword(model_id)\<close>.
\<close>

definition convert_model_id_to_python_id ::
  "(string \<Rightarrow> bool) \<Rightarrow> validator \<Rightarrow> string \<Rightarrow> string \<times> validator" where
  "convert_model_id_to_python_id is_python_id v mid =
     (if is_python_id mid then (mid, v)
      else (case map_of (opaque_ids v) mid of
              Some opaque \<Rightarrow> (opaque, v)
            | None \<Rightarrow>
                let next_opaque_id = VALID_PYTHON_ID_PREFIX @ str_nat (next_id v)
                in (next_opaque_id,
                    v\<lparr>opaque_ids := AList.update mid next_opaque_id (opaque_ids v),
                      next_id := next_id v + 1\<rparr>)))"

text \<open>\<^verbatim>\<open>_expr_with_python_ids\<close>: the list \<^verbatim>\<open>expr\<close> it builds, then the join.\<close>

fun python_id_texts ::
  "(string \<Rightarrow> bool) \<Rightarrow> validator \<Rightarrow> obj_tables_token list \<Rightarrow> raised + (string list \<times> validator)" where
  "python_id_texts is_python_id v [] = Inr ([], v)"
| "python_id_texts is_python_id v (tok # toks) =
     (if code tok = Obj_id
      then (case model_id tok of
              None \<Rightarrow> Inl AttributeError
            | Some mid \<Rightarrow>
                (case convert_model_id_to_python_id is_python_id v mid of
                   (text, v') \<Rightarrow>
                     (case python_id_texts is_python_id v' toks of
                        Inl r \<Rightarrow> Inl r
                      | Inr (texts, v'') \<Rightarrow> Inr (text # texts, v''))))
      else (case python_id_texts is_python_id v toks of
              Inl r \<Rightarrow> Inl r
            | Inr (texts, v') \<Rightarrow> Inr (token_string tok # texts, v')))"

definition expr_with_python_ids ::
  "(string \<Rightarrow> bool) \<Rightarrow> validator \<Rightarrow> 'v parsed_expression \<Rightarrow> raised + (string \<times> validator)" where
  "expr_with_python_ids is_python_id v pe =
     (case python_id_texts is_python_id v (obj_tables_tokens pe) of
        Inl r \<Rightarrow> Inl r
      | Inr (texts, v') \<Rightarrow> Inr (join '' '' texts, v'))"

text \<open>\<^verbatim>\<open>str.strip()\<close>, on the ASCII white space.\<close>

definition is_space :: "char \<Rightarrow> bool" where
  "is_space c \<longleftrightarrow> c \<in> {CHR 0x20, CHR 0x09, CHR 0x0A, CHR 0x0B, CHR 0x0C, CHR 0x0D}"

definition strip :: "string \<Rightarrow> string" where
  "strip s = rev (dropWhile is_space (rev (dropWhile is_space s)))"

subsection \<open>The coefficients\<close>

text \<open>
  \<^verbatim>\<open>get_cls_and_model\<close>: every related object whose \<^verbatim>\<open>id\<close> is the given one; a second
  one raises \<^verbatim>\<open>ParsedExpressionError\<close> ("multiple models with id"), none gives
  \<^verbatim>\<open>(None, None)\<close>.
\<close>

datatype validate_raised =
    Cannot_validate_empty_expression
  | Multiple_models_with_id string
  | Python_exception raised

definition related_pairs ::
  "(model_type \<times> (string \<times> model_obj) list) list \<Rightarrow> (model_type \<times> model_obj) list" where
  "related_pairs rel = concat (map (\<lambda>(cls, related_objs). map (\<lambda>(i, m). (cls, m)) related_objs) rel)"

fun find_cls_and_model ::
  "string \<Rightarrow> (model_type \<times> model_obj) list \<Rightarrow> (model_type \<times> model_obj) option
     \<Rightarrow> validate_raised + (model_type \<times> model_obj) option" where
  "find_cls_and_model i [] found = Inr found"
| "find_cls_and_model i ((cls, m) # rest) found =
     (if mo_id m = i
      then (if found \<noteq> None then Inl (Multiple_models_with_id i)
            else find_cls_and_model i rest (Some (cls, m)))
      else find_cls_and_model i rest found)"

definition get_cls_and_model ::
  "'v parsed_expression \<Rightarrow> string \<Rightarrow> validate_raised + (model_type \<times> model_obj) option" where
  "get_cls_and_model pe i = find_cls_and_model i (related_pairs (related_objects pe)) None"

text \<open>
  \<^verbatim>\<open>_get_coeffs_for_vars\<close>: the walk that pairs each name with the last number seen
  before it (\<^verbatim>\<open>float(coeff)\<close>, \<open>None\<close> being its \<^verbatim>\<open>TypeError\<close>), then the opaque ids
  mapped back.
\<close>

fun coeffs_walk :: "expr list \<Rightarrow> pynum \<Rightarrow> (real option \<times> string) list" where
  "coeffs_walk [] coeff = []"
| "coeffs_walk (node # nodes) coeff =
     (let coeff = (if is_Num node then num_val node else coeff)
      in if is_Name node
         then (py_float coeff, name_id node) # coeffs_walk nodes (PyReal 1)
         else coeffs_walk nodes coeff)"

definition get_coeffs_for_vars :: "validator \<Rightarrow> expr \<Rightarrow> (real option \<times> string) list" where
  "get_coeffs_for_vars v tree =
     (let coeff_model_id_pairs = coeffs_walk (walk tree) (PyReal 1);
          inverted_opaque_ids = map (\<lambda>(i, opaque). (opaque, i)) (opaque_ids v)
      in map (\<lambda>(coeff, mid).
                case map_of (rev inverted_opaque_ids) mid of
                  Some i \<Rightarrow> (coeff, i)
                | None \<Rightarrow> (coeff, mid))
             coeff_model_id_pairs)"

text \<open>
  \<^verbatim>\<open>lin_coeffs[cls][obj] = val\<close> and \<^verbatim>\<open>lin_coeffs[cls][obj] += coeff\<close>, with the \<^verbatim>\<open>KeyError\<close>
  of a missing class or object; \<^verbatim>\<open>get_cls_and_model\<close> may have returned \<^verbatim>\<open>(None, None)\<close>.
\<close>

definition set_coeff ::
  "(model_type \<times> (model_obj \<times> pyfloat) list) list \<Rightarrow> model_type \<Rightarrow> model_obj \<Rightarrow> pyfloat
     \<Rightarrow> validate_raised + (model_type \<times> (model_obj \<times> pyfloat) list) list" where
  "set_coeff lin cls obj val =
     (case map_of lin cls of
        None \<Rightarrow> Inl (Python_exception KeyError)
      | Some d \<Rightarrow> Inr (AList.update cls (AList.update obj val d) lin))"

fun pyfloat_add :: "pyfloat \<Rightarrow> real \<Rightarrow> pyfloat" where
  "pyfloat_add (Fl a) c = Fl (a + c)"
| "pyfloat_add NaN c = NaN"

definition add_coeff ::
  "(model_type \<times> (model_obj \<times> pyfloat) list) list \<Rightarrow> (model_type \<times> model_obj) option \<Rightarrow> real
     \<Rightarrow> validate_raised + (model_type \<times> (model_obj \<times> pyfloat) list) list" where
  "add_coeff lin found coeff =
     (case found of
        None \<Rightarrow> Inl (Python_exception KeyError)
      | Some (cls, obj) \<Rightarrow>
          (case map_of lin cls of
             None \<Rightarrow> Inl (Python_exception KeyError)
           | Some d \<Rightarrow>
               (case map_of d obj of
                  None \<Rightarrow> Inl (Python_exception KeyError)
                | Some old \<Rightarrow>
                    Inr (AList.update cls (AList.update obj (pyfloat_add old coeff) d) lin))))"

fun set_defaults ::
  "(model_type \<times> model_obj) list \<Rightarrow> pyfloat \<Rightarrow> (model_type \<times> (model_obj \<times> pyfloat) list) list
     \<Rightarrow> validate_raised + (model_type \<times> (model_obj \<times> pyfloat) list) list" where
  "set_defaults [] default_val lin = Inr lin"
| "set_defaults ((cls, obj) # rest) default_val lin =
     (case set_coeff lin cls obj default_val of
        Inl r \<Rightarrow> Inl r
      | Inr lin' \<Rightarrow> set_defaults rest default_val lin')"

fun add_coeffs ::
  "'v parsed_expression \<Rightarrow> (real \<times> string) list \<Rightarrow> (model_type \<times> (model_obj \<times> pyfloat) list) list
     \<Rightarrow> validate_raised + (model_type \<times> (model_obj \<times> pyfloat) list) list" where
  "add_coeffs pe [] lin = Inr lin"
| "add_coeffs pe ((coeff, var_id) # rest) lin =
     (case get_cls_and_model pe var_id of
        Inl r \<Rightarrow> Inl r
      | Inr found \<Rightarrow>
          (case add_coeff lin found coeff of
             Inl r \<Rightarrow> Inl r
           | Inr lin' \<Rightarrow> add_coeffs pe rest lin'))"

text \<open>
  \<^verbatim>\<open>_set_lin_coeffs\<close>. The classes that get an empty dictionary first are those of the
  related attributes named in \<^verbatim>\<open>Meta.expression_term_models\<close>: the term models of
  \<^verbatim>\<open>ParsedExpression.__init__\<close>.
\<close>

definition set_lin_coeffs ::
  "validator \<Rightarrow> 'v parsed_expression \<Rightarrow> validate_raised + 'v parsed_expression" where
  "set_lin_coeffs v pe =
     (let default_val = (if is_linear v then Fl 0 else NaN);
          lin = fold (\<lambda>mt. AList.update mt []) (term_models pe) []
      in case set_defaults (related_pairs (related_objects pe)) default_val lin of
           Inl r \<Rightarrow> Inl r
         | Inr lin \<Rightarrow>
             if \<not> is_linear v then Inr (pe\<lparr>lin_coeffs := lin\<rparr>)
             else
               (case v_tree v of
                  None \<Rightarrow> Inl (Python_exception AttributeError)
                | Some tree \<Rightarrow>
                    (case all_texts (map (\<lambda>(c, i). map_option (\<lambda>x. (x, i)) c)
                                       (get_coeffs_for_vars v tree)) of
                       None \<Rightarrow> Inl (Python_exception TypeError)
                     | Some pairs \<Rightarrow>
                         (case add_coeffs pe pairs lin of
                            Inl r \<Rightarrow> Inl r
                          | Inr lin \<Rightarrow> Inr (pe\<lparr>lin_coeffs := lin\<rparr>)))))"

text \<open>
  \<^verbatim>\<open>validate\<close>: \<^verbatim>\<open>_init\<close> on the expression with Python identifiers (a \<^verbatim>\<open>ValueError\<close> when it
  is empty), \<^verbatim>\<open>_validate\<close>, and \<^verbatim>\<open>_set_lin_coeffs\<close> when asked for. It returns what
  \<^verbatim>\<open>_validate\<close> returned; the validator and the parsed expression are returned with it.
\<close>

definition validate ::
  "(string \<Rightarrow> expr option) \<Rightarrow> (string \<Rightarrow> bool) \<Rightarrow> validator \<Rightarrow> 'v parsed_expression \<Rightarrow> bool
     \<Rightarrow> validate_raised + ((bool \<times> reason option) \<times> validator \<times> 'v parsed_expression)" where
  "validate parse is_python_id v0 pe set_linear_coeffs =
     (case expr_with_python_ids is_python_id v0 pe of
        Inl r \<Rightarrow> Inl (Python_exception r)
      | Inr (text, v1) \<Rightarrow>
          let v = v1\<lparr>v_expression := strip text\<rparr>
          in if v_expression v = [] then Inl Cannot_validate_empty_expression
             else
               (case validate_steps parse v of
                  (rv, v') \<Rightarrow>
                    if set_linear_coeffs
                    then (case set_lin_coeffs v' pe of
                            Inl r \<Rightarrow> Inl r
                          | Inr pe' \<Rightarrow> Inr (rv, v', pe'))
                    else Inr (rv, v', pe)))"

section \<open>Properties of the linearity check\<close>

subsection \<open>What the walk visits\<close>

fun subnodes :: "expr \<Rightarrow> expr set" where
  "subnodes (Num c) = {Num c}"
| "subnodes (Name x) = {Name x}"
| "subnodes (UnaryOp u e) = insert (UnaryOp u e) (subnodes e)"
| "subnodes (BinOp l b r) = insert (BinOp l b r) (subnodes l \<union> subnodes r)"
| "subnodes (Other k es) = insert (Other k es) (\<Union>e \<in> set es. subnodes e)"

lemma subnodes_children:
  "subnodes t = insert t (\<Union>c \<in> set (iter_child_nodes t). subnodes c)"
  by (cases t) auto

lemma set_walk_queue: "set (walk_queue todo) = (\<Union>t \<in> set todo. subnodes t)"
proof (induction todo rule: walk_queue.induct)
  case 1
  then show ?case by simp
next
  case (2 node todo)
  have "set (walk_queue (node # todo)) = insert node (set (walk_queue (todo @ iter_child_nodes node)))"
    by simp
  also have "\<dots> = insert node ((\<Union>t \<in> set todo. subnodes t) \<union> (\<Union>c \<in> set (iter_child_nodes node). subnodes c))"
    using 2 by (simp add: Un_commute)
  also have "\<dots> = subnodes node \<union> (\<Union>t \<in> set todo. subnodes t)"
    using subnodes_children [of node] by auto
  finally show ?case by simp
qed

lemma set_walk: "set (walk tree) = subnodes tree"
  using subnodes_children [of tree] by (simp add: walk_def set_walk_queue)

subsection \<open>Calls, comparisons, division and exponentiation are never linear\<close>

text \<open>
  The node that Python's parser builds for a function call (\<^verbatim>\<open>Call\<close>), a comparison
  (\<^verbatim>\<open>Compare\<close>), a division (\<^verbatim>\<open>BinOp\<close> with \<^verbatim>\<open>Div\<close>) or an exponentiation (\<^verbatim>\<open>BinOp\<close> with
  \<^verbatim>\<open>Pow\<close>).
\<close>

definition nonlinear_node :: "expr \<Rightarrow> bool" where
  "nonlinear_node node \<longleftrightarrow>
     (is_Other node \<and> (kind node = Call \<or> kind node = Compare))
     \<or> (is_BinOp node \<and> (bin_op node = Div \<or> bin_op node = Pow_op))"

lemma nonlinear_node_invalid:
  assumes "node \<in> set (walk tree)" and "nonlinear_node node"
  shows "\<exists>r. validate_node_types tree = (False, Some r)"
proof -
  from assms(2) obtain c where "c \<in> set (node_classes node)" and "c \<notin> set VALID_NOTE_TYPES"
    by (cases node) (auto simp: nonlinear_node_def VALID_NOTE_TYPES_def)
  with assms(1) have "filter (\<lambda>c. c \<notin> set VALID_NOTE_TYPES) (concat (map node_classes (walk tree))) \<noteq> []"
    by (auto simp: filter_empty_conv)
  then show ?thesis by (simp add: validate_node_types_def Let_def)
qed

lemma fst_fold_update:
  "fst ` set (fold (\<lambda>mt. AList.update mt v) mts acc) = set mts \<union> fst ` set acc"
  by (induction mts arbitrary: acc) (auto simp: dom_update)

lemma set_coeff_ok:
  "cls \<in> fst ` set lin \<Longrightarrow> \<exists>lin'. set_coeff lin cls obj val = Inr lin' \<and> fst ` set lin' = fst ` set lin"
  by (auto simp: set_coeff_def dom_update map_of_eq_None_iff split: option.splits)

lemma set_defaults_ok:
  "fst ` set pairs \<subseteq> fst ` set lin \<Longrightarrow> \<exists>lin'. set_defaults pairs d lin = Inr lin'"
proof (induction pairs arbitrary: lin)
  case Nil
  then show ?case by simp
next
  case (Cons p pairs)
  obtain cls obj where p: "p = (cls, obj)" by (cases p)
  with Cons.prems have "cls \<in> fst ` set lin" by simp
  from set_coeff_ok [OF this, of obj d] obtain lin' where
    s: "set_coeff lin cls obj d = Inr lin'" and k: "fst ` set lin' = fst ` set lin" by blast
  from Cons.prems k have "fst ` set pairs \<subseteq> fst ` set lin'" by simp
  from Cons.IH [OF this] s p show ?case by simp
qed

lemma fst_related_pairs: "fst ` set (related_pairs rel) \<subseteq> fst ` set rel"
  by (force simp: related_pairs_def)

lemma set_lin_coeffs_not_linear:
  assumes "\<not> is_linear v" and "fst ` set (related_objects pe) \<subseteq> set (term_models pe)"
  shows "\<exists>pe'. set_lin_coeffs v pe = Inr pe'"
proof -
  let ?lin = "fold (\<lambda>mt. AList.update mt []) (term_models pe) []"
  have "fst ` set (related_pairs (related_objects pe)) \<subseteq> fst ` set ?lin"
    using fst_related_pairs [of "related_objects pe"] assms(2) by (simp add: fst_fold_update)
  from set_defaults_ok [OF this, of NaN] obtain lin' where
    "set_defaults (related_pairs (related_objects pe)) NaN ?lin = Inr lin'" by blast
  with assms(1) show ?thesis by (simp add: set_lin_coeffs_def)
qed

text \<open>
  Claim C2. Take a parsed expression whose tokens give a text (\<^verbatim>\<open>_expr_with_python_ids\<close>,
  not empty) that Python's parser either rejects or turns into a tree with a call, a
  comparison, a division or an exponentiation somewhere in it: the two things the
  parser can do with a token sequence that holds such a construct. Then \<^verbatim>\<open>validate\<close>
  returns \<^verbatim>\<open>False\<close> with a reason, and leaves \<^verbatim>\<open>is_linear\<close> false. (The classes of
  \<^verbatim>\<open>related_objects\<close> are term models, as after every \<^verbatim>\<open>tokenize\<close>.)
\<close>

theorem validate_rejects_nonlinear_constructs:
  assumes ids: "expr_with_python_ids is_python_id v pe = Inr (text, v1)"
    and nonempty: "strip text \<noteq> []"
    and tree: "parse (strip text) = None
               \<or> (\<exists>tree node. parse (strip text) = Some tree
                     \<and> node \<in> set (walk tree) \<and> nonlinear_node node)"
    and keys: "fst ` set (related_objects pe) \<subseteq> set (term_models pe)"
  shows "\<exists>reason v' pe'.
           validate parse is_python_id v pe set_linear_coeffs = Inr ((False, Some reason), v', pe')
           \<and> \<not> is_linear v'"
proof -
  define v2 where "v2 = v1\<lparr>v_expression := strip text\<rparr>"
  have e: "v_expression v2 = strip text" by (simp add: v2_def)
  have "\<exists>reason v'. validate_steps parse v2 = ((False, Some reason), v') \<and> \<not> is_linear v'"
    using tree
  proof
    assume "parse (strip text) = None"
    then show ?thesis by (simp add: validate_steps_def e)
  next
    assume "\<exists>tree node. parse (strip text) = Some tree
              \<and> node \<in> set (walk tree) \<and> nonlinear_node node"
    then obtain tree node where p: "parse (strip text) = Some tree"
      and n: "node \<in> set (walk tree)" "nonlinear_node node" by blast
    from nonlinear_node_invalid [OF n] obtain r where "validate_node_types tree = (False, Some r)"
      by blast
    with p show ?thesis by (simp add: validate_steps_def e)
  qed
  then obtain reason v' where steps: "validate_steps parse v2 = ((False, Some reason), v')"
    and nl: "\<not> is_linear v'" by blast
  from set_lin_coeffs_not_linear [OF nl keys] obtain pe' where "set_lin_coeffs v' pe = Inr pe'"
    by blast
  with ids nonempty steps nl show ?thesis
    by (cases set_linear_coeffs) (simp_all add: validate_def v2_def [symmetric] e)
qed


text \<open>The expression \<^verbatim>\<open>p_1 / 2\<close> over one parameter, as \<^verbatim>\<open>tokenize\<close> leaves it.\<close>

definition Parameter :: model_type where
  "Parameter = \<lparr>mt_name = ''Parameter'', expression_term_token_pattern = [NAME],
                 expression_term_model = False, expression_term_value = True\<rparr>"

definition p_1 :: model_obj where
  "p_1 = \<lparr>ident = 1, mo_id = ''p_1'', primary_attribute = ''p_1''\<rparr>"

definition new_validator :: validator where
  "new_validator = \<lparr>v_expression = [], v_tree = None, is_linear = False, opaque_ids = [], next_id = 1\<rparr>"

definition plain_token :: "token_code \<Rightarrow> string \<Rightarrow> obj_tables_token" where
  "plain_token c s = \<lparr>code = c, token_string = s, tk_model_type = None, model_id = None, model = None\<rparr>"

definition obj_token :: "string \<Rightarrow> model_type \<Rightarrow> model_obj \<Rightarrow> obj_tables_token" where
  "obj_token s mt m = \<lparr>code = Obj_id, token_string = s, tk_model_type = Some mt,
                        model_id = Some s, model = Some m\<rparr>"

definition parsed_quotient :: "real parsed_expression" where
  "parsed_quotient =
     \<lparr>model_cls_name = ''Function'', attr = ''expression'', expression = ''p_1 / 2'',
      py_tokens = [], objs = (\<lambda>mt. if mt = Parameter then [''p_1'' \<mapsto> p_1] else Map.empty),
      term_models = [Parameter], meta_expression_valid_functions = None, unit_registry = False,
      related_objects = [(Parameter, [(''p_1'', p_1)])], lin_coeffs = [(Parameter, [])],
      errors = [],
      obj_tables_tokens = [obj_token ''p_1'' Parameter p_1, plain_token Op ''/'', plain_token Number ''2''],
      compiled_expression = Some ''Parameter[p_1] / 2'',
      compiled_expression_with_units = Some ''Parameter[p_1] / 2 * __dimensionless__'',
      compiled_namespace = [], compiled_namespace_with_units = []\<rparr>"

definition parse_quotient :: "string \<Rightarrow> expr option" where
  "parse_quotient s =
     (if s = ''p_1 / 2'' then Some (BinOp (Name ''p_1'') Div (Num (PyReal 2))) else None)"

lemma strip_example: "strip ''p_1 / 2'' = ''p_1 / 2''"
  by (simp add: strip_def is_space_def)

theorem validate_rejects_nonlinear_constructs_witness:
  "\<exists>reason v' pe'.
     validate parse_quotient (\<lambda>s. True) new_validator parsed_quotient True
       = Inr ((False, Some reason), v', pe')
     \<and> \<not> is_linear v'"
proof (rule validate_rejects_nonlinear_constructs)
  show "expr_with_python_ids (\<lambda>s. True) new_validator parsed_quotient = Inr (''p_1 / 2'', new_validator)"
    by (simp add: expr_with_python_ids_def parsed_quotient_def obj_token_def plain_token_def
          convert_model_id_to_python_id_def)
  show "strip ''p_1 / 2'' \<noteq> []"
    by (simp add: strip_example)
  show "parse_quotient (strip ''p_1 / 2'') = None
        \<or> (\<exists>tree node. parse_quotient (strip ''p_1 / 2'') = Some tree
              \<and> node \<in> set (walk tree) \<and> nonlinear_node node)"
    by (auto simp: strip_example parse_quotient_def walk_def nonlinear_node_def)
  show "fst ` set (related_objects parsed_quotient) \<subseteq> set (term_models parsed_quotient)"
    by (simp add: parsed_quotient_def)
qed

section \<open>Properties of the lexers\<close>

subsection \<open>Bare references: \_get\_related\_obj\_id\<close>

text \<open>
  What the first loop of \<^verbatim>\<open>_get_related_obj_id\<close> collects at a position: the texts matched
  by the token pattern of some term model (\<^verbatim>\<open>token_matches\<close>), and the matches whose text
  is an id of that model in the registry (\<^verbatim>\<open>id_matches\<close>); and the id matches of maximal
  text length among a set of them.
\<close>

definition token_matches_at :: "'v parsed_expression \<Rightarrow> nat \<Rightarrow> string set" where
  "token_matches_at pe idx =
     {s. \<exists>mt \<in> set (term_models pe).
           match_tokens pe (expression_term_token_pattern mt) idx = Some s \<and> s \<noteq> []}"

definition id_matches_at ::
  "(string \<Rightarrow> string) \<Rightarrow> 'v parsed_expression \<Rightarrow> nat \<Rightarrow> bool \<Rightarrow> id_match set" where
  "id_matches_at casefold pe idx cfm = {m. id_match_ok casefold pe idx cfm m}"

definition longest_of :: "id_match set \<Rightarrow> id_match set" where
  "longest_of ims = {m \<in> ims. \<forall>m' \<in> ims. length (match_string m') \<le> length (match_string m)}"

lemma scan_step_fst:
  "set (fst (scan_step casefold pe idx cfm mt acc)) =
     set (fst acc) \<union> {s. match_tokens pe (expression_term_token_pattern mt) idx = Some s \<and> s \<noteq> []}"
  by (auto simp: scan_step_def Let_def split: option.splits)

lemma scan_fold_fst:
  "set (fst (fold (scan_step casefold pe idx cfm) mts acc)) =
     set (fst acc) \<union> {s. \<exists>mt \<in> set mts.
        match_tokens pe (expression_term_token_pattern mt) idx = Some s \<and> s \<noteq> []}"
  by (induction mts arbitrary: acc) (auto simp: scan_step_fst)

lemma scan_step_snd_eq:
  "set (snd (scan_step casefold pe idx cfm mt acc)) =
     set (snd acc) \<union> {m. im_model_type m = mt
            \<and> im_token_pattern m = expression_term_token_pattern mt
            \<and> match_tokens pe (expression_term_token_pattern mt) idx = Some (match_string m)
            \<and> match_string m \<noteq> []
            \<and> objs pe mt (if cfm then casefold (match_string m) else match_string m) \<noteq> None}"
  (is "?L = ?R")
proof
  show "?L \<subseteq> ?R" using scan_step_snd [of _ casefold pe idx cfm mt acc] by blast
  show "?R \<subseteq> ?L"
    by (auto simp: scan_step_def Let_def split: option.splits)
qed

lemma scan_fold_snd_eq:
  "set (snd (fold (scan_step casefold pe idx cfm) mts acc)) =
     set (snd acc) \<union> {m. im_model_type m \<in> set mts
            \<and> im_token_pattern m = expression_term_token_pattern (im_model_type m)
            \<and> match_tokens pe (expression_term_token_pattern (im_model_type m)) idx
                = Some (match_string m)
            \<and> match_string m \<noteq> []
            \<and> objs pe (im_model_type m)
                 (if cfm then casefold (match_string m) else match_string m) \<noteq> None}"
proof (induction mts arbitrary: acc)
  case Nil
  then show ?case by simp
next
  case (Cons mt mts)
  show ?case
    unfolding fold_simps Cons.IH scan_step_snd_eq by auto
qed

lemma scan_step_distinct:
  "distinct (snd acc) \<Longrightarrow> distinct (snd (scan_step casefold pe idx cfm mt acc))"
  by (auto simp: scan_step_def Let_def split: option.splits)

lemma scan_fold_distinct:
  "distinct (snd acc) \<Longrightarrow> distinct (snd (fold (scan_step casefold pe idx cfm) mts acc))"
  by (induction mts arbitrary: acc) (auto simp: scan_step_distinct)

lemma scan_token_matches:
  "set (fst (scan_term_models casefold pe idx cfm)) = token_matches_at pe idx"
  by (simp add: scan_term_models_def scan_fold_fst token_matches_at_def)

lemma scan_id_matches:
  "set (snd (scan_term_models casefold pe idx cfm)) = id_matches_at casefold pe idx cfm"
  by (simp add: scan_term_models_def scan_fold_snd_eq id_matches_at_def id_match_ok_def)

lemma scan_distinct: "distinct (snd (scan_term_models casefold pe idx cfm))"
  by (simp add: scan_term_models_def scan_fold_distinct)

lemma takeWhile_eq_filter_descending:
  "sorted_wrt (\<lambda>a b. f b \<le> (f a :: nat)) zs \<Longrightarrow> \<forall>z \<in> set zs. f z \<le> F \<Longrightarrow>
   takeWhile (\<lambda>m. f m = F) zs = filter (\<lambda>m. f m = F) zs"
proof (induction zs)
  case Nil
  then show ?case by simp
next
  case (Cons z zs)
  show ?case
  proof (cases "f z = F")
    case True
    with Cons show ?thesis by simp
  next
    case False
    with Cons.prems have "f z < F" by (simp add: le_neq_implies_less)
    moreover from Cons.prems(1) have "\<forall>y \<in> set zs. f y \<le> f z" by simp
    ultimately have "filter (\<lambda>m. f m = F) zs = []"
      by (auto simp: filter_empty_conv)
    with False show ?thesis by simp
  qed
qed

lemma sorted_le_last: "sorted ys \<Longrightarrow> (z::nat) \<in> set ys \<Longrightarrow> z \<le> last ys"
proof (induction ys)
  case Nil
  then show ?case by simp
next
  case (Cons y ys)
  show ?case
  proof (cases "ys = []")
    case True
    with Cons.prems show ?thesis by simp
  next
    case False
    then have l: "last ys \<in> set ys" by simp
    from Cons.prems(2) have "z = y \<or> z \<in> set ys" by simp
    then show ?thesis
    proof
      assume "z = y"
      with Cons.prems(1) l False show ?thesis by simp
    next
      assume "z \<in> set ys"
      with Cons False show ?thesis by simp
    qed
  qed
qed

lemma longest_by_key:
  assumes "xs \<noteq> []"
  shows "takeWhile (\<lambda>m. f m = f (last (sort_key f xs))) (rev (sort_key f xs))
         = filter (\<lambda>m. \<forall>m' \<in> set xs. f m' \<le> (f m :: nat)) (rev (sort_key f xs))"
proof -
  let ?ys = "sort_key f xs"
  have ne: "?ys \<noteq> []" using assms by (metis length_0_conv length_sort)
  have s: "sorted (map f ?ys)" by simp
  have top: "\<forall>z \<in> set ?ys. f z \<le> f (last ?ys)"
  proof
    fix z assume "z \<in> set ?ys"
    then have "f z \<in> set (map f ?ys)" by simp
    moreover have "last (map f ?ys) = f (last ?ys)" using ne by (simp add: last_map)
    ultimately show "f z \<le> f (last ?ys)"
      using s sorted_le_last [of "map f ?ys" "f z"] by simp
  qed
  have d: "sorted_wrt (\<lambda>a b. f b \<le> f a) (rev ?ys)"
    using s by (simp add: sorted_wrt_rev sorted_map)
  have "takeWhile (\<lambda>m. f m = f (last ?ys)) (rev ?ys) = filter (\<lambda>m. f m = f (last ?ys)) (rev ?ys)"
    using d top by (intro takeWhile_eq_filter_descending) simp_all
  also have "\<dots> = filter (\<lambda>m. \<forall>m' \<in> set xs. f m' \<le> f m) (rev ?ys)"
  proof (rule filter_cong [OF refl])
    fix m assume "m \<in> set (rev ?ys)"
    then have m: "m \<in> set ?ys" by simp
    have l: "last ?ys \<in> set xs" using ne last_in_set [of ?ys] by simp
    show "(f m = f (last ?ys)) = (\<forall>m' \<in> set xs. f m' \<le> f m)"
    proof
      assume "f m = f (last ?ys)"
      with top show "\<forall>m' \<in> set xs. f m' \<le> f m" by simp
    next
      assume a: "\<forall>m' \<in> set xs. f m' \<le> f m"
      with l have "f (last ?ys) \<le> f m" by simp
      moreover from top m have "f m \<le> f (last ?ys)" by simp
      ultimately show "f m = f (last ?ys)" by simp
    qed
  qed
  finally show ?thesis .
qed

lemma set_longest_id_matches:
  "set (longest_id_matches ims) = longest_of (set ims)"
proof (cases "1 < length ims")
  case True
  then have "ims \<noteq> []" by auto
  from longest_by_key [OF this, of "\<lambda>m. length (match_string m)"] True
  show ?thesis by (auto simp: longest_id_matches_def Let_def longest_of_def)
next
  case False
  then consider "ims = []" | m where "ims = [m]"
    by (cases ims) (auto simp: Suc_le_eq)
  then show ?thesis
    by cases (auto simp: longest_id_matches_def longest_of_def)
qed

lemma distinct_longest_id_matches:
  "distinct ims \<Longrightarrow> distinct (longest_id_matches ims)"
  by (auto simp: longest_id_matches_def Let_def intro!: distinct_takeWhile)


lemma longest_id_matches_nonempty:
  assumes "ims \<noteq> []"
  shows "longest_id_matches ims \<noteq> []"
proof -
  let ?f = "\<lambda>m. length (match_string m)"
  have fin: "finite (?f ` set ims)" and ne: "?f ` set ims \<noteq> {}" using assms by auto
  from Max_in [OF fin ne] obtain m where m: "m \<in> set ims" "?f m = Max (?f ` set ims)"
    by auto
  have "\<forall>m' \<in> set ims. ?f m' \<le> ?f m"
    using Max_ge [OF fin] m(2) by auto
  with m(1) have "m \<in> longest_of (set ims)" by (simp add: longest_of_def)
  then have "m \<in> set (longest_id_matches ims)" by (simp add: set_longest_id_matches)
  then show ?thesis by auto
qed

lemma two_distinct_length: "a \<in> set l \<Longrightarrow> b \<in> set l \<Longrightarrow> a \<noteq> b \<Longrightarrow> 1 < length l"
  by (cases l; cases "tl l") auto

text \<open>
  Claim C6. At a position of the token list, \<^verbatim>\<open>_get_related_obj_id\<close> returns
  \<^item> the error "contains the identifier(s) ... which aren't the id(s) of an object" (with
    the matched texts) when some term model's pattern matches and no matched text is an
    id in the registry;
  \<^item> the error "contains multiple model object id matches" (with the id matches of
    maximal text length) when two different id matches have maximal text length;
  \<^item> the match of the one id match of maximal text length otherwise, whatever shorter id
    matches there are.
\<close>

theorem get_related_obj_id_resolution:
  "(id_matches_at casefold pe idx cfm = {} \<and> token_matches_at pe idx \<noteq> {} \<longrightarrow>
      get_related_obj_id casefold pe idx cfm
        = Lex_error (Not_ids_of_an_object (token_matches_at pe idx)))
   \<and> (id_matches_at casefold pe idx cfm \<noteq> {}
        \<and> (\<exists>m1 \<in> longest_of (id_matches_at casefold pe idx cfm).
             \<exists>m2 \<in> longest_of (id_matches_at casefold pe idx cfm). m1 \<noteq> m2) \<longrightarrow>
      get_related_obj_id casefold pe idx cfm
        = Lex_error (Multiple_model_object_id_matches
            ((\<lambda>m. (match_string m, mt_name (im_model_type m)))
               ` longest_of (id_matches_at casefold pe idx cfm))))
   \<and> (id_matches_at casefold pe idx cfm \<noteq> {}
        \<and> \<not> (\<exists>m1 \<in> longest_of (id_matches_at casefold pe idx cfm).
                \<exists>m2 \<in> longest_of (id_matches_at casefold pe idx cfm). m1 \<noteq> m2) \<longrightarrow>
      (\<exists>m inst. longest_of (id_matches_at casefold pe idx cfm) = {m}
         \<and> objs pe (im_model_type m)
              (if cfm then casefold (match_string m) else match_string m) = Some inst
         \<and> get_related_obj_id casefold pe idx cfm
             = Lex_found
                 \<lparr>lm_obj_tables_tokens =
                    [\<lparr>code = Obj_id, token_string = match_string m,
                      tk_model_type = Some (im_model_type m),
                      model_id = Some (if cfm then casefold (match_string m) else match_string m),
                      model = Some inst\<rparr>],
                  num_py_tokens = length (im_token_pattern m)\<rparr>))"
proof -
  obtain tms ims where scan: "scan_term_models casefold pe idx cfm = (tms, ims)"
    by (cases "scan_term_models casefold pe idx cfm")
  have tms: "set tms = token_matches_at pe idx"
    using scan_token_matches [of casefold pe idx cfm] scan by simp
  have ims: "set ims = id_matches_at casefold pe idx cfm"
    using scan_id_matches [of casefold pe idx cfm] scan by simp
  have dist: "distinct (longest_id_matches ims)"
    using scan_distinct [of casefold pe idx cfm] scan
    by (simp add: distinct_longest_id_matches)
  have longest: "set (longest_id_matches ims) = longest_of (id_matches_at casefold pe idx cfm)"
    by (simp add: set_longest_id_matches ims)
  have first: "get_related_obj_id casefold pe idx cfm
        = Lex_error (Not_ids_of_an_object (token_matches_at pe idx))"
    if "id_matches_at casefold pe idx cfm = {}" "token_matches_at pe idx \<noteq> {}"
  proof -
    from that ims tms have "ims = []" "tms \<noteq> []" by auto
    then show ?thesis using scan tms by (simp add: get_related_obj_id_def)
  qed
  have second: "get_related_obj_id casefold pe idx cfm
        = Lex_error (Multiple_model_object_id_matches
            ((\<lambda>m. (match_string m, mt_name (im_model_type m)))
               ` longest_of (id_matches_at casefold pe idx cfm)))"
    if "id_matches_at casefold pe idx cfm \<noteq> {}"
      "\<exists>m1 \<in> longest_of (id_matches_at casefold pe idx cfm).
         \<exists>m2 \<in> longest_of (id_matches_at casefold pe idx cfm). m1 \<noteq> m2"
  proof -
    from that(1) ims have ne: "ims \<noteq> []" by auto
    from that(2) longest have "1 < length (longest_id_matches ims)"
      by (metis two_distinct_length)
    then show ?thesis using scan ne longest
      by (simp add: get_related_obj_id_def Let_def)
  qed
  have third: "\<exists>m inst. longest_of (id_matches_at casefold pe idx cfm) = {m}
         \<and> objs pe (im_model_type m)
              (if cfm then casefold (match_string m) else match_string m) = Some inst
         \<and> get_related_obj_id casefold pe idx cfm
             = Lex_found
                 \<lparr>lm_obj_tables_tokens =
                    [\<lparr>code = Obj_id, token_string = match_string m,
                      tk_model_type = Some (im_model_type m),
                      model_id = Some (if cfm then casefold (match_string m) else match_string m),
                      model = Some inst\<rparr>],
                  num_py_tokens = length (im_token_pattern m)\<rparr>"
    if "id_matches_at casefold pe idx cfm \<noteq> {}"
      "\<not> (\<exists>m1 \<in> longest_of (id_matches_at casefold pe idx cfm).
             \<exists>m2 \<in> longest_of (id_matches_at casefold pe idx cfm). m1 \<noteq> m2)"
  proof -
    from that(1) ims have ne: "ims \<noteq> []" by auto
    from longest_id_matches_nonempty [OF ne] obtain m rest where
      l: "longest_id_matches ims = m # rest" by (cases "longest_id_matches ims") auto
    have "rest = []"
    proof (rule ccontr)
      assume "rest \<noteq> []"
      then obtain m' where "m' \<in> set rest" by (cases rest) auto
      with dist l have "m' \<noteq> m" "m' \<in> set (longest_id_matches ims)" "m \<in> set (longest_id_matches ims)"
        by auto
      with that(2) longest show False by blast
    qed
    with l have one: "longest_id_matches ims = [m]" by simp
    with longest have L: "longest_of (id_matches_at casefold pe idx cfm) = {m}" by auto
    then have "m \<in> id_matches_at casefold pe idx cfm" by (auto simp: longest_of_def)
    then obtain inst where o: "objs pe (im_model_type m)
              (if cfm then casefold (match_string m) else match_string m) = Some inst"
      by (auto simp: id_matches_at_def id_match_ok_def)
    have "get_related_obj_id casefold pe idx cfm
             = Lex_found
                 \<lparr>lm_obj_tables_tokens =
                    [\<lparr>code = Obj_id, token_string = match_string m,
                      tk_model_type = Some (im_model_type m),
                      model_id = Some (if cfm then casefold (match_string m) else match_string m),
                      model = Some inst\<rparr>],
                  num_py_tokens = length (im_token_pattern m)\<rparr>"
      using scan ne one o by (simp add: get_related_obj_id_def Let_def)
    with L o show ?thesis by blast
  qed
  from first second third show ?thesis by blast
qed


text \<open>
  A fresh \<^verbatim>\<open>ParsedExpression\<close>, as \<^verbatim>\<open>__init__\<close> leaves it; two term models that each
  have an instance with the id \<^verbatim>\<open>x\<close>; the expression \<^verbatim>\<open>x\<close>.
\<close>

definition new_parsed_expression ::
  "string \<Rightarrow> string \<Rightarrow> string \<Rightarrow> py_token list \<Rightarrow> (model_type \<Rightarrow> string \<Rightarrow> model_obj option)
     \<Rightarrow> model_type list \<Rightarrow> string list option \<Rightarrow> real parsed_expression" where
  "new_parsed_expression cls a e toks os tms fns =
     reset_tokenization
       \<lparr>model_cls_name = cls, attr = a, expression = e, py_tokens = toks, objs = os,
        term_models = tms, meta_expression_valid_functions = fns, unit_registry = False,
        related_objects = [], lin_coeffs = [], errors = [], obj_tables_tokens = [],
        compiled_expression = None, compiled_expression_with_units = None,
        compiled_namespace = [], compiled_namespace_with_units = []\<rparr>"

definition TypeA :: model_type where
  "TypeA = \<lparr>mt_name = ''TypeA'', expression_term_token_pattern = [NAME],
             expression_term_model = False, expression_term_value = False\<rparr>"

definition TypeB :: model_type where
  "TypeB = \<lparr>mt_name = ''TypeB'', expression_term_token_pattern = [NAME],
             expression_term_model = False, expression_term_value = False\<rparr>"

definition x_of_A :: model_obj where
  "x_of_A = \<lparr>ident = 1, mo_id = ''x'', primary_attribute = ''x''\<rparr>"

definition x_of_B :: model_obj where
  "x_of_B = \<lparr>ident = 2, mo_id = ''x'', primary_attribute = ''x''\<rparr>"

definition two_types :: "model_type \<Rightarrow> string \<Rightarrow> model_obj option" where
  "two_types mt =
     (if mt = TypeA then [''x'' \<mapsto> x_of_A] else if mt = TypeB then [''x'' \<mapsto> x_of_B]
      else Map.empty)"

definition name_tok :: "string \<Rightarrow> nat \<Rightarrow> py_token" where
  "name_tok s col = \<lparr>tok_type = NAME, tok_string = s, tok_start = (1, col),
                      tok_end = (1, col + length s)\<rparr>"

definition ambiguous_x :: "real parsed_expression" where
  "ambiguous_x =
     new_parsed_expression ''Function'' ''expression'' ''x'' [name_tok ''x'' 0] two_types
       [TypeA, TypeB] None"

lemma ambiguous_x_match: "match_tokens ambiguous_x [NAME] 0 = Some ''x''"
  by (simp add: match_tokens_def ambiguous_x_def new_parsed_expression_def
        reset_tokenization_def name_tok_def exact_type_def strip_digit_prefix_def startswith_def)

theorem get_related_obj_id_resolution_witness:
  "\<exists>S. get_related_obj_id (\<lambda>s. s) ambiguous_x 0 False
          = Lex_error (Multiple_model_object_id_matches S)
       \<and> (''x'', ''TypeA'') \<in> S \<and> (''x'', ''TypeB'') \<in> S"
proof -
  let ?IM = "id_matches_at (\<lambda>s. s) ambiguous_x 0 False"
  define mA where "mA = \<lparr>im_model_type = TypeA, im_token_pattern = [NAME], match_string = ''x''\<rparr>"
  define mB where "mB = \<lparr>im_model_type = TypeB, im_token_pattern = [NAME], match_string = ''x''\<rparr>"
  have tms: "term_models ambiguous_x = [TypeA, TypeB]"
    and os: "objs ambiguous_x = two_types"
    by (simp_all add: ambiguous_x_def new_parsed_expression_def reset_tokenization_def)
  have inA: "mA \<in> ?IM" and inB: "mB \<in> ?IM"
    by (simp_all add: id_matches_at_def id_match_ok_def mA_def mB_def tms os
          ambiguous_x_match two_types_def TypeA_def TypeB_def)
  have all: "\<forall>m \<in> ?IM. match_string m = ''x''"
    using ambiguous_x_match
    by (auto simp: id_matches_at_def id_match_ok_def tms TypeA_def TypeB_def)
  have LA: "mA \<in> longest_of ?IM" and LB: "mB \<in> longest_of ?IM"
    using inA inB all by (auto simp: longest_of_def mA_def mB_def)
  have neq: "mA \<noteq> mB" by (simp add: mA_def mB_def TypeA_def TypeB_def)
  have "get_related_obj_id (\<lambda>s. s) ambiguous_x 0 False
          = Lex_error (Multiple_model_object_id_matches
              ((\<lambda>m. (match_string m, mt_name (im_model_type m))) ` longest_of ?IM))"
    using get_related_obj_id_resolution [of "\<lambda>s. s" ambiguous_x 0 False] inA LA LB neq
    by blast
  moreover have "(''x'', ''TypeA'') \<in> (\<lambda>m. (match_string m, mt_name (im_model_type m))) ` longest_of ?IM"
    using LA by (force simp: mA_def TypeA_def)
  moreover have "(''x'', ''TypeB'') \<in> (\<lambda>m. (match_string m, mt_name (im_model_type m))) ` longest_of ?IM"
    using LB by (force simp: mB_def TypeB_def)
  ultimately show ?thesis by blast
qed

end
